theory Spec2Isabelle
  imports Complex_Main "HOL-Library.AList"
begin

section \<open>Python values and exceptions\<close>

text \<open>
  The module \<^verbatim>\<open>gmapsdatalib.py\<close> is embedded function by function. Python floats are
  idealised as real numbers: the embedding keeps every division, truncation and comparison
  of the source, but not the rounding of IEEE arithmetic. An exception is a value of
  \<open>error\<close>, and a function that may raise returns \<open>error + 'a\<close> with \<open>Inl\<close> for
  the exception.
\<close>

datatype error =
    RequestError string
  | ZeroDivisionError
  | ValueError
  | KeyError string
  | IndexError
  | TypeError
  | JSONDecodeError
  | FileNotFoundError string
  | UnpicklingError

text \<open>Python's \<^verbatim>\<open>a / b\<close> on numbers raises on a zero divisor.\<close>

definition py_truediv :: "real \<Rightarrow> real \<Rightarrow> error + real" where
  "py_truediv a b = (if b = 0 then Inl ZeroDivisionError else Inr (a / b))"

text \<open>\<^verbatim>\<open>int(x)\<close> on a float truncates towards zero.\<close>

definition py_int :: "real \<Rightarrow> int" where
  "py_int x = (if 0 \<le> x then \<lfloor>x\<rfloor> else \<lceil>x\<rceil>)"

text \<open>\<^verbatim>\<open>range(n)\<close> is \<open>0, ..., n - 1\<close>, empty when \<open>n \<le> 0\<close>.\<close>

definition py_range :: "int \<Rightarrow> int list" where
  "py_range n = [0..n - 1]"

section \<open>The grid builder\<close>

text \<open>
  \<^verbatim>\<open>gridMaker\<close> uses two operations of the geopy library, which is not part of the
  module: the constructor \<^verbatim>\<open>geopy.point.Point\<close>, which may reject its coordinates or
  normalise them, and \<^verbatim>\<open>geopy.distance.geodesic(p, q).kilometers\<close>. Both are parameters
  of the embedding.
\<close>

record geopoint =
  latitude :: real
  longitude :: real

record geopy =
  Point :: "real \<Rightarrow> real \<Rightarrow> error + geopoint"
  geodesic :: "geopoint \<Rightarrow> geopoint \<Rightarrow> real"

text \<open>The local variables of \<^verbatim>\<open>gridMaker\<close> that its two loops read.\<close>

record grid_locals =
  center :: geopoint
  vector_x_lat :: real
  vector_x_lon :: real
  vector_y_lat :: real
  vector_y_lon :: real
  npx :: int
  npy :: int

text \<open>
  The body of the inner loop (lines 70 to 76): the point of the grid at \<open>(i, j)\<close>. The
  quotients \<^verbatim>\<open>i/npx\<close> and \<^verbatim>\<open>j/npy\<close> are evaluated in this order, each of them raising
  on a zero divisor.
\<close>

definition grid_point :: "grid_locals \<Rightarrow> int \<Rightarrow> int \<Rightarrow> error + (real \<times> real)" where
  "grid_point l i j =
     (case py_truediv (of_int i) (of_int (npx l)) of
        Inl e \<Rightarrow> Inl e
      | Inr a \<Rightarrow>
          (case py_truediv (of_int j) (of_int (npy l)) of
             Inl e \<Rightarrow> Inl e
           | Inr b \<Rightarrow>
               Inr (latitude (center l) + a * vector_x_lat l + b * vector_y_lat l,
                    longitude (center l) + a * vector_x_lon l + b * vector_y_lon l)))"

text \<open>\<^verbatim>\<open>for j in range(npy+1)\<close>, appending to \<^verbatim>\<open>grid\<close>.\<close>

fun grid_inner :: "grid_locals \<Rightarrow> int \<Rightarrow> int list \<Rightarrow> (real \<times> real) list
    \<Rightarrow> error + (real \<times> real) list" where
  "grid_inner l i [] grid = Inr grid"
| "grid_inner l i (j # js) grid =
     (case grid_point l i j of
        Inl e \<Rightarrow> Inl e
      | Inr p \<Rightarrow> grid_inner l i js (grid @ [p]))"

text \<open>\<^verbatim>\<open>for i in range(npx+1)\<close>.\<close>

fun grid_outer :: "grid_locals \<Rightarrow> int list \<Rightarrow> (real \<times> real) list
    \<Rightarrow> error + (real \<times> real) list" where
  "grid_outer l [] grid = Inr grid"
| "grid_outer l (i # is) grid =
     (case grid_inner l i (py_range (npy l + 1)) grid of
        Inl e \<Rightarrow> Inl e
      | Inr grid' \<Rightarrow> grid_outer l is grid')"

definition gridMaker :: "geopy \<Rightarrow> real \<times> real \<Rightarrow> real \<times> real \<Rightarrow> real \<times> real
    \<Rightarrow> real \<Rightarrow> real \<Rightarrow> error + (real \<times> real) list" where
  "gridMaker geo center_lat_lon top_left_lat_lon bottom_right_lat_lon x_step y_step =
     (case Point geo (fst center_lat_lon) (snd center_lat_lon) of
        Inl e \<Rightarrow> Inl e
      | Inr c \<Rightarrow>
     (case Point geo (fst top_left_lat_lon) (snd top_left_lat_lon) of
        Inl e \<Rightarrow> Inl e
      | Inr top_left \<Rightarrow>
     (case Point geo (fst bottom_right_lat_lon) (snd bottom_right_lat_lon) of
        Inl e \<Rightarrow> Inl e
      | Inr bottom_right \<Rightarrow>
     (let x_step_km = x_step / 1000;
          y_step_km = y_step / 1000;
          vx_norm = geodesic geo c bottom_right;
          vy_norm = geodesic geo c top_left
      in
     (case py_truediv vx_norm x_step_km of
        Inl e \<Rightarrow> Inl e
      | Inr num_points_x \<Rightarrow>
     (case py_truediv vy_norm y_step_km of
        Inl e \<Rightarrow> Inl e
      | Inr num_points_y \<Rightarrow>
     (let l = \<lparr> center = c,
                vector_x_lat = latitude bottom_right - latitude c,
                vector_x_lon = longitude bottom_right - longitude c,
                vector_y_lat = latitude top_left - latitude c,
                vector_y_lon = longitude top_left - longitude c,
                npx = py_int num_points_x,
                npy = py_int num_points_y \<rparr>
      in grid_outer l (py_range (npx l + 1)) [])))))))"

text \<open>
  The point that lines 70 to 75 compute at \<open>(i, j)\<close> when neither divisor is zero, and
  the local variables as \<^verbatim>\<open>gridMaker\<close> sets them from its three points and the two
  numbers of steps.
\<close>

definition lattice_point :: "grid_locals \<Rightarrow> int \<Rightarrow> int \<Rightarrow> real \<times> real" where
  "lattice_point l i j =
     (latitude (center l) + (of_int i / of_int (npx l)) * vector_x_lat l
                          + (of_int j / of_int (npy l)) * vector_y_lat l,
      longitude (center l) + (of_int i / of_int (npx l)) * vector_x_lon l
                           + (of_int j / of_int (npy l)) * vector_y_lon l)"

definition grid_frame :: "geopoint \<Rightarrow> geopoint \<Rightarrow> geopoint \<Rightarrow> int \<Rightarrow> int \<Rightarrow> grid_locals" where
  "grid_frame c t b nx ny =
     \<lparr> center = c,
       vector_x_lat = latitude b - latitude c,
       vector_x_lon = longitude b - longitude c,
       vector_y_lat = latitude t - latitude c,
       vector_y_lon = longitude t - longitude c,
       npx = nx, npy = ny \<rparr>"

text \<open>
  A stand-in for geopy in the concrete instances below. It accepts a latitude within 90
  degrees of the equator, as geopy does, and keeps the coordinates as they are; its
  distance is 111 km for each degree of latitude and of longitude, which is what the
  geodesic gives, to the kilometre, between the points near latitude 0 that the instances
  use.
\<close>

definition flat_geopy :: geopy where
  "flat_geopy =
     \<lparr> Point = (\<lambda>lat lon. if \<bar>lat\<bar> > 90 then Inl ValueError
                           else Inr \<lparr> latitude = lat, longitude = lon \<rparr>),
       geodesic = (\<lambda>p q. 111 * (\<bar>latitude q - latitude p\<bar> + \<bar>longitude q - longitude p\<bar>)) \<rparr>"

section \<open>Responses of the remote service\<close>

text \<open>
  A decoded JSON body. An object is the Python dictionary that \<^verbatim>\<open>response.json()\<close>
  returns, kept as an association list that is read with \<open>map_of\<close>.
\<close>

datatype json =
    JNull
  | JBool bool
  | JNum real
  | JStr string
  | JArr "json list"
  | JObj "(string \<times> json) list"

text \<open>
  Of a \<^verbatim>\<open>requests\<close> response the module only calls \<^verbatim>\<open>.json()\<close>, which raises when
  the body is not JSON.
\<close>

datatype response = Body json | NotJSON

definition response_json :: "response \<Rightarrow> error + json" where
  "response_json r = (case r of Body v \<Rightarrow> Inr v | NotJSON \<Rightarrow> Inl JSONDecodeError)"

text \<open>
  \<^verbatim>\<open>v[k]\<close> for a string \<open>k\<close>: KeyError on a dictionary without the key, TypeError on
  a value that is not a dictionary.
\<close>

fun py_getitem :: "json \<Rightarrow> string \<Rightarrow> error + json" where
  "py_getitem (JObj kvs) k =
     (case map_of kvs k of None \<Rightarrow> Inl (KeyError k) | Some v \<Rightarrow> Inr v)"
| "py_getitem v k = Inl TypeError"

text \<open>
  \<^verbatim>\<open>for x in v\<close>: the elements of a list, the keys of a dictionary, the characters of a
  string; TypeError on any other value.
\<close>

fun py_iter :: "json \<Rightarrow> error + json list" where
  "py_iter (JArr xs) = Inr xs"
| "py_iter (JObj kvs) = Inr (map (\<lambda>kv. JStr (fst kv)) kvs)"
| "py_iter (JStr s) = Inr (map (\<lambda>c. JStr [c]) s)"
| "py_iter v = Inl TypeError"

text \<open>
  \<^verbatim>\<open>list(set(xs))\<close>. Building the set raises TypeError on a list or a dictionary, which
  are not hashable; \<open>True\<close> and \<open>False\<close> are equal to the numbers 1 and 0 and share
  their hash; of equal elements the set keeps the first. The order in which Python lists
  the set is not specified: the embedding takes the order of insertion, and no property
  below depends on it.
\<close>

fun py_hashable :: "json \<Rightarrow> bool" where
  "py_hashable (JArr xs) = False"
| "py_hashable (JObj kvs) = False"
| "py_hashable v = True"

fun py_key :: "json \<Rightarrow> json" where
  "py_key (JBool b) = JNum (if b then 1 else 0)"
| "py_key v = v"

definition set_add :: "('a \<Rightarrow> 'k) \<Rightarrow> 'a list \<Rightarrow> 'a \<Rightarrow> 'a list" where
  "set_add key s x = (if key x \<in> set (map key s) then s else s @ [x])"

definition list_of_set :: "('a \<Rightarrow> 'k) \<Rightarrow> 'a list \<Rightarrow> 'a list" where
  "list_of_set key xs = foldl (set_add key) [] xs"

definition py_list_set :: "json list \<Rightarrow> error + json list" where
  "py_list_set xs =
     (if list_all py_hashable xs then Inr (list_of_set py_key xs) else Inl TypeError)"

text \<open>
  \<^verbatim>\<open>request_check\<close> (lines 14 to 17). A status that is not a string differs from both
  literals, and the concatenation of the message with it raises TypeError.
\<close>

definition request_check :: "response \<Rightarrow> error + unit" where
  "request_check response =
     (case response_json response of
        Inl e \<Rightarrow> Inl e
      | Inr body \<Rightarrow>
          (case py_getitem body ''status'' of
             Inl e \<Rightarrow> Inl e
           | Inr status \<Rightarrow>
               (if status \<noteq> JStr ''OK'' \<and> status \<noteq> JStr ''ZERO_RESULTS'' then
                  (case status of
                     JStr s \<Rightarrow>
                       Inl (RequestError (''Google API returned the following status: '' @ s))
                   | _ \<Rightarrow> Inl TypeError)
                else Inr ())))"

section \<open>The world outside the module\<close>

text \<open>
  What the module reaches outside itself is a parameter of the embedding: \<^verbatim>\<open>str\<close> on a
  float, the remote service behind \<^verbatim>\<open>requests.request("GET", url, headers, data)\<close>,
  taken to answer every request with a response that depends on the request only, and
  the two directions of \<^verbatim>\<open>pickle\<close>.
\<close>

type_synonym pydict = "(string \<times> string) list"

record platform =
  str_float :: "real \<Rightarrow> string"
  http_get :: "string \<Rightarrow> pydict \<Rightarrow> pydict \<Rightarrow> response"
  pickle_dump :: "json \<Rightarrow> string"
  pickle_load :: "string \<Rightarrow> error + json"

text \<open>
  The state that the module changes: the files, as a list of paths with their contents,
  and the requests sent so far, in order. Directories are not modelled: a path is a
  string, every directory is taken to exist, and writing a file always succeeds; a file
  is directly in a folder when its path is the folder, a slash and a name without slash.
\<close>

record world =
  disk :: "(string \<times> string) list"
  requested :: "string list"

definition requests_request :: "platform \<Rightarrow> string \<Rightarrow> pydict \<Rightarrow> pydict \<Rightarrow> world
    \<Rightarrow> response \<times> world" where
  "requests_request pf url headers payload w =
     (http_get pf url headers payload, w\<lparr> requested := requested w @ [url] \<rparr>)"

text \<open>\<^verbatim>\<open>open(p, 'w')\<close> or \<^verbatim>\<open>open(p, 'wb')\<close>, writing \<open>s\<close>, and closing.\<close>

definition file_write :: "world \<Rightarrow> string \<Rightarrow> string \<Rightarrow> world" where
  "file_write w p s = w\<lparr> disk := AList.update p s (disk w) \<rparr>"

text \<open>\<^verbatim>\<open>open(p, 'a')\<close>, which creates a missing file, writing \<open>s\<close> at the end.\<close>

definition file_append :: "world \<Rightarrow> string \<Rightarrow> string \<Rightarrow> world" where
  "file_append w p s =
     w\<lparr> disk := AList.update p
            ((case map_of (disk w) p of None \<Rightarrow> [] | Some c \<Rightarrow> c) @ s) (disk w) \<rparr>"

text \<open>\<^verbatim>\<open>str(i)\<close> for the index that \<^verbatim>\<open>enumerate\<close> gives.\<close>

fun str_nat :: "nat \<Rightarrow> string" where
  "str_nat n =
     (if n < 10 then [''0123456789'' ! n]
      else str_nat (n div 10) @ [''0123456789'' ! (n mod 10)])"

declare str_nat.simps [simp del]

definition nearby_url :: "string \<Rightarrow> string \<Rightarrow> string \<Rightarrow> string \<Rightarrow> string" where
  "nearby_url lat lon place_type API_key =
     ''https://maps.googleapis.com/maps/api/place/nearbysearch/json?location='' @ lat @
     ''%2C'' @ lon @ ''&type='' @ place_type @ ''&rankby=distance&key='' @ API_key"

definition details_url :: "string \<Rightarrow> string \<Rightarrow> string" where
  "details_url ident API_key =
     ''https://maps.googleapis.com/maps/api/place/details/json?place_id='' @ ident @
     ''&key='' @ API_key"

section \<open>The nearby-search collector\<close>

text \<open>Lines 125 and 126: \<^verbatim>\<open>for place in places: list_of_id.append(place["place_id"])\<close>.\<close>

fun append_place_ids :: "json list \<Rightarrow> json list \<Rightarrow> error + json list" where
  "append_place_ids [] list_of_id = Inr list_of_id"
| "append_place_ids (place # places) list_of_id =
     (case py_getitem place ''place_id'' of
        Inl e \<Rightarrow> Inl e
      | Inr v \<Rightarrow> append_place_ids places (list_of_id @ [v]))"

text \<open>The loop of \<^verbatim>\<open>get_ids_from_grid\<close> (lines 109 to 126).\<close>

fun get_ids_loop :: "platform \<Rightarrow> string \<Rightarrow> string \<Rightarrow> pydict \<Rightarrow> pydict
    \<Rightarrow> (real \<times> real) list \<Rightarrow> json list \<Rightarrow> world \<Rightarrow> (error + json list) \<times> world" where
  "get_ids_loop pf place_type API_key payload headers [] list_of_id w = (Inr list_of_id, w)"
| "get_ids_loop pf place_type API_key payload headers (point # grid) list_of_id w =
     (let lat = str_float pf (fst point);
          lon = str_float pf (snd point);
          url = nearby_url lat lon place_type API_key;
          (response, w1) = requests_request pf url headers payload w
      in
     (case request_check response of
        Inl e \<Rightarrow> (Inl e, w1)
      | Inr u \<Rightarrow>
     (case response_json response of
        Inl e \<Rightarrow> (Inl e, w1)
      | Inr dict \<Rightarrow>
     (case py_getitem dict ''results'' of
        Inl e \<Rightarrow> (Inl e, w1)
      | Inr places \<Rightarrow>
     (case py_iter places of
        Inl e \<Rightarrow> (Inl e, w1)
      | Inr ps \<Rightarrow>
     (case append_place_ids ps list_of_id of
        Inl e \<Rightarrow> (Inl e, w1)
      | Inr list_of_id' \<Rightarrow>
          get_ids_loop pf place_type API_key payload headers grid list_of_id' w1))))))"

definition get_ids_from_grid :: "platform \<Rightarrow> (real \<times> real) list \<Rightarrow> string \<Rightarrow> string
    \<Rightarrow> pydict \<Rightarrow> pydict \<Rightarrow> world \<Rightarrow> (error + json list) \<times> world" where
  "get_ids_from_grid pf grid place_type API_key payload headers w =
     (case get_ids_loop pf place_type API_key payload headers grid [] w of
        (Inl e, w') \<Rightarrow> (Inl e, w')
      | (Inr list_of_id, w') \<Rightarrow> (py_list_set list_of_id, w'))"

text \<open>
  Lines 184 to 186: one line \<^verbatim>\<open>str(i)+" "+place["place_id"]+"\n"\<close> for each place. A
  place without the key raises KeyError, a \<^verbatim>\<open>place_id\<close> that is not a string raises
  TypeError in the concatenation; the lines written before stay in the file.
\<close>

fun write_ids :: "nat \<Rightarrow> string \<Rightarrow> json list \<Rightarrow> world \<Rightarrow> (error + unit) \<times> world" where
  "write_ids i file_name [] w = (Inr (), w)"
| "write_ids i file_name (place # places) w =
     (case py_getitem place ''place_id'' of
        Inl e \<Rightarrow> (Inl e, w)
      | Inr v \<Rightarrow>
          (case v of
             JStr place_id \<Rightarrow>
               write_ids i file_name places
                 (file_append w file_name (str_nat i @ '' '' @ place_id @ [CHR 0x0A]))
           | _ \<Rightarrow> (Inl TypeError, w)))"

text \<open>
  The loop of \<^verbatim>\<open>ids_to_file_from_grid\<close> (lines 163 to 188) over \<^verbatim>\<open>enumerate(grid)\<close>.
  The bare \<^verbatim>\<open>except:\<close> takes every exception of \<^verbatim>\<open>request_check\<close>. The
  \<^verbatim>\<open>return\<close> of line 188 is inside the loop body; when the loop ends without reaching
  it the function returns \<^verbatim>\<open>None\<close>.
\<close>

fun ids_to_file_loop :: "platform \<Rightarrow> string \<Rightarrow> string \<Rightarrow> string \<Rightarrow> pydict \<Rightarrow> pydict
    \<Rightarrow> (nat \<times> (real \<times> real)) list \<Rightarrow> (real \<times> real) list \<Rightarrow> world
    \<Rightarrow> (error + (real \<times> real) list option) \<times> world" where
  "ids_to_file_loop pf place_type file_name API_key payload headers [] error_points w =
     (Inr None, w)"
| "ids_to_file_loop pf place_type file_name API_key payload headers ((i, point) # rest)
       error_points w =
     (let lat = str_float pf (fst point);
          lon = str_float pf (snd point);
          url = nearby_url lat lon place_type API_key;
          (response, w1) = requests_request pf url headers payload w
      in
     (case request_check response of
        Inl e \<Rightarrow>
          ids_to_file_loop pf place_type file_name API_key payload headers rest
            (error_points @ [(fst point, snd point)]) w1
      | Inr u \<Rightarrow>
     (case response_json response of
        Inl e \<Rightarrow> (Inl e, w1)
      | Inr dict \<Rightarrow>
     (case py_getitem dict ''results'' of
        Inl e \<Rightarrow> (Inl e, w1)
      | Inr places \<Rightarrow>
     (let w2 = file_append w1 file_name [] in
     (case py_iter places of
        Inl e \<Rightarrow> (Inl e, w2)
      | Inr ps \<Rightarrow>
     (case write_ids i file_name ps w2 of
        (Inl e, w3) \<Rightarrow> (Inl e, w3)
      | (Inr u, w3) \<Rightarrow> (Inr (Some error_points), w3))))))))"

definition ids_to_file_from_grid :: "platform \<Rightarrow> (real \<times> real) list \<Rightarrow> string \<Rightarrow> string
    \<Rightarrow> string \<Rightarrow> pydict \<Rightarrow> pydict \<Rightarrow> world
    \<Rightarrow> (error + (real \<times> real) list option) \<times> world" where
  "ids_to_file_from_grid pf grid place_type file_name API_key payload headers w =
     ids_to_file_loop pf place_type file_name API_key payload headers
       (List.enumerate 0 grid) [] (file_write w file_name [])"

section \<open>The identifier aggregator\<close>

text \<open>
  \<^verbatim>\<open>file.readlines()\<close> on a file opened in text mode: \<^verbatim>\<open>\r\n\<close> and \<^verbatim>\<open>\r\<close> are
  read as \<^verbatim>\<open>\n\<close>, and every line keeps its \<^verbatim>\<open>\n\<close>. A character of a text is a
  code point below 256.
\<close>

fun universal_newlines :: "string \<Rightarrow> string" where
  "universal_newlines [] = []"
| "universal_newlines [c] = [if c = CHR 0x0D then CHR 0x0A else c]"
| "universal_newlines (c # d # cs) =
     (if c = CHR 0x0D then
        (if d = CHR 0x0A then CHR 0x0A # universal_newlines cs
         else CHR 0x0A # universal_newlines (d # cs))
      else c # universal_newlines (d # cs))"

fun lines_from :: "string \<Rightarrow> string \<Rightarrow> string list" where
  "lines_from cur [] = (if cur = [] then [] else [cur])"
| "lines_from cur (c # cs) =
     (if c = CHR 0x0A then (cur @ [c]) # lines_from [] cs else lines_from (cur @ [c]) cs)"

definition readlines :: "string \<Rightarrow> string list" where
  "readlines content = lines_from [] (universal_newlines content)"

text \<open>\<^verbatim>\<open>line.split()\<close>: the maximal runs of characters that are not whitespace.\<close>

definition py_isspace :: "char \<Rightarrow> bool" where
  "py_isspace c =
     (of_char c \<in> {9, 10, 11, 12, 13, 28, 29, 30, 31, 32, 133, 160 :: nat})"

fun split_from :: "string \<Rightarrow> string \<Rightarrow> string list" where
  "split_from cur [] = (if cur = [] then [] else [cur])"
| "split_from cur (c # cs) =
     (if py_isspace c then (if cur = [] then split_from [] cs else cur # split_from [] cs)
      else split_from (cur @ [c]) cs)"

definition py_split :: "string \<Rightarrow> string list" where
  "py_split line = split_from [] line"

text \<open>Lines 206 to 208: \<^verbatim>\<open>split_line[1]\<close> raises IndexError on fewer than two tokens.\<close>

fun ids_of_lines :: "string list \<Rightarrow> string list \<Rightarrow> error + string list" where
  "ids_of_lines [] ids = Inr ids"
| "ids_of_lines (line # lines) ids =
     (case py_split line of
        t0 # t1 # ts \<Rightarrow> ids_of_lines lines (ids @ [t1])
      | _ \<Rightarrow> Inl IndexError)"

fun unique_ids_loop :: "world \<Rightarrow> string list \<Rightarrow> string list \<Rightarrow> error + string list" where
  "unique_ids_loop w [] ids = Inr ids"
| "unique_ids_loop w (file_name # files) ids =
     (case map_of (disk w) file_name of
        None \<Rightarrow> Inl (FileNotFoundError file_name)
      | Some content \<Rightarrow>
          (case ids_of_lines (readlines content) ids of
             Inl e \<Rightarrow> Inl e
           | Inr ids' \<Rightarrow> unique_ids_loop w files ids'))"

definition get_unique_ids_from_files :: "world \<Rightarrow> string list \<Rightarrow> error + string list" where
  "get_unique_ids_from_files w files =
     (case unique_ids_loop w files [] of
        Inl e \<Rightarrow> Inl e
      | Inr ids \<Rightarrow> Inr (list_of_set (\<lambda>x. x) ids))"

section \<open>The detail fetcher\<close>

text \<open>
  The loop of \<^verbatim>\<open>data_from_ids_to_files\<close> (lines 279 to 295). Payload and headers are
  set to empty dictionaries before each request. The bare \<^verbatim>\<open>except:\<close> takes every
  exception of \<^verbatim>\<open>request_check\<close>; the subscript \<^verbatim>\<open>['result']\<close> is outside it.
\<close>

fun data_to_files_loop :: "platform \<Rightarrow> string \<Rightarrow> string \<Rightarrow> string list \<Rightarrow> string list
    \<Rightarrow> world \<Rightarrow> (error + string list) \<times> world" where
  "data_to_files_loop pf folder API_key [] error_ids w = (Inr error_ids, w)"
| "data_to_files_loop pf folder API_key (ident # ids) error_ids w =
     (let url = details_url ident API_key;
          (response, w1) = requests_request pf url [] [] w
      in
     (case request_check response of
        Inl e \<Rightarrow> data_to_files_loop pf folder API_key ids (error_ids @ [ident]) w1
      | Inr u \<Rightarrow>
     (case response_json response of
        Inl e \<Rightarrow> (Inl e, w1)
      | Inr body \<Rightarrow>
     (case py_getitem body ''result'' of
        Inl e \<Rightarrow> (Inl e, w1)
      | Inr dict \<Rightarrow>
          data_to_files_loop pf folder API_key ids error_ids
            (file_write w1 (folder @ ''/'' @ ident @ ''.pkl'') (pickle_dump pf dict))))))"

definition data_from_ids_to_files :: "platform \<Rightarrow> string list \<Rightarrow> string \<Rightarrow> string
    \<Rightarrow> pydict \<Rightarrow> pydict \<Rightarrow> world \<Rightarrow> (error + string list) \<times> world" where
  "data_from_ids_to_files pf ids folder API_key payload headers w =
     data_to_files_loop pf folder API_key ids [] w"

text \<open>
  \<^verbatim>\<open>os.path.join\<close>, \<^verbatim>\<open>os.listdir\<close> and \<^verbatim>\<open>os.path.isfile\<close> on the paths of the disk. The
  entries of a folder are the first components of the paths below it; an entry is a file
  when the joined path is one.
\<close>

definition os_path_join :: "string \<Rightarrow> string \<Rightarrow> string" where
  "os_path_join a b =
     (if b \<noteq> [] \<and> hd b = CHR ''/'' then b
      else if a = [] \<or> last a = CHR ''/'' then a @ b
      else a @ ''/'' @ b)"

definition entry_of :: "string \<Rightarrow> string \<Rightarrow> string list" where
  "entry_of folder p =
     (let pre = os_path_join folder [] in
      if take (length pre) p = pre \<and> length pre < length p
      then [takeWhile (\<lambda>c. c \<noteq> CHR ''/'') (drop (length pre) p)]
      else [])"

definition os_listdir :: "world \<Rightarrow> string \<Rightarrow> error + string list" where
  "os_listdir w folder =
     (if folder = [] then Inl (FileNotFoundError folder)
      else Inr (remdups (concat (map (\<lambda>pc. entry_of folder (fst pc)) (disk w)))))"

definition os_path_isfile :: "world \<Rightarrow> string \<Rightarrow> bool" where
  "os_path_isfile w p = (map_of (disk w) p \<noteq> None)"

text \<open>The loop of \<^verbatim>\<open>pkl_files_to_list_of_dicts\<close> (lines 314 to 318).\<close>

fun pkl_loop :: "platform \<Rightarrow> world \<Rightarrow> string \<Rightarrow> string list \<Rightarrow> json list
    \<Rightarrow> error + json list" where
  "pkl_loop pf w folder [] list_of_dicts = Inr list_of_dicts"
| "pkl_loop pf w folder (f # files) list_of_dicts =
     (let f_path = os_path_join folder f in
      case map_of (disk w) f_path of
        None \<Rightarrow> Inl (FileNotFoundError f_path)
      | Some content \<Rightarrow>
          (case pickle_load pf content of
             Inl e \<Rightarrow> Inl e
           | Inr dictionary \<Rightarrow> pkl_loop pf w folder files (list_of_dicts @ [dictionary])))"

definition pkl_files_to_list_of_dicts :: "platform \<Rightarrow> world \<Rightarrow> string \<Rightarrow> error + json list" where
  "pkl_files_to_list_of_dicts pf w folder =
     (case os_listdir w folder of
        Inl e \<Rightarrow> Inl e
      | Inr entries \<Rightarrow>
          pkl_loop pf w folder
            (filter (\<lambda>f. os_path_isfile w (os_path_join folder f)) entries) [])"

section \<open>Notions for stating the properties\<close>

text \<open>
  The URL that the two collectors build for a point of the grid (lines 112 to 116 and 166
  to 170), and the response that the service gives to the request for it.
\<close>

definition point_url :: "platform \<Rightarrow> string \<Rightarrow> string \<Rightarrow> real \<times> real \<Rightarrow> string" where
  "point_url pf place_type API_key point =
     nearby_url (str_float pf (fst point)) (str_float pf (snd point)) place_type API_key"

definition nearby_response :: "platform \<Rightarrow> string \<Rightarrow> string \<Rightarrow> pydict \<Rightarrow> pydict
    \<Rightarrow> real \<times> real \<Rightarrow> response" where
  "nearby_response pf place_type API_key payload headers point =
     http_get pf (point_url pf place_type API_key point) headers payload"

text \<open>\<^verbatim>\<open>request_check\<close> raises on the response, whatever the exception.\<close>

definition check_fails :: "response \<Rightarrow> bool" where
  "check_fails r = (case request_check r of Inl e \<Rightarrow> True | Inr u \<Rightarrow> False)"

text \<open>
  The identifiers that a response carries when it has the form the service documents: a
  \<^verbatim>\<open>results\<close> array of places, each with a string \<^verbatim>\<open>place_id\<close>. \<open>None\<close> on any
  other response.
\<close>

fun place_ids_of :: "json list \<Rightarrow> string list option" where
  "place_ids_of [] = Some []"
| "place_ids_of (place # places) =
     (case py_getitem place ''place_id'' of
        Inr (JStr s) \<Rightarrow> map_option ((#) s) (place_ids_of places)
      | _ \<Rightarrow> None)"

definition nearby_ids :: "response \<Rightarrow> string list option" where
  "nearby_ids r =
     (case response_json r of
        Inl e \<Rightarrow> None
      | Inr body \<Rightarrow>
          (case py_getitem body ''results'' of
             Inl e \<Rightarrow> None
           | Inr places \<Rightarrow>
               (case py_iter places of Inl e \<Rightarrow> None | Inr ps \<Rightarrow> place_ids_of ps)))"

text \<open>The line of the identifier file for the place \<open>place_id\<close> of the point of index \<open>i\<close>.\<close>

definition id_line :: "nat \<Rightarrow> string \<Rightarrow> string" where
  "id_line i place_id = str_nat i @ '' '' @ place_id @ [CHR 0x0A]"

text \<open>
  A platform and a world for the concrete instances. The service answers the nearby
  search at \<open>(0, 1)\<close> with the places \<open>a\<close> and \<open>b\<close>, at \<open>(0, 2)\<close> with \<open>b\<close> and
  \<open>c\<close>, the details of \<open>y\<close> with a record, the details of \<open>z\<close> with a body that has
  no status, and every other request with the status \<^verbatim>\<open>REQUEST_DENIED\<close>.
\<close>

definition demo_platform :: platform where
  "demo_platform =
     \<lparr> str_float = (\<lambda>x. if x = 0 then ''0.0'' else if x = 1 then ''1.0'' else ''2.0''),
       http_get = (\<lambda>url headers payload.
         if url = nearby_url ''0.0'' ''1.0'' ''cafe'' ''KEY'' then
           Body (JObj [(''status'', JStr ''OK''),
                       (''results'', JArr [JObj [(''place_id'', JStr ''a'')],
                                           JObj [(''place_id'', JStr ''b'')]])])
         else if url = nearby_url ''0.0'' ''2.0'' ''cafe'' ''KEY'' then
           Body (JObj [(''status'', JStr ''OK''),
                       (''results'', JArr [JObj [(''place_id'', JStr ''b'')],
                                           JObj [(''place_id'', JStr ''c'')]])])
         else if url = details_url ''y'' ''KEY'' then
           Body (JObj [(''status'', JStr ''OK''),
                       (''result'', JObj [(''name'', JStr ''Cafe Y'')])])
         else if url = details_url ''z'' ''KEY'' then Body (JObj [])
         else Body (JObj [(''status'', JStr ''REQUEST_DENIED'')])),
       pickle_dump = (\<lambda>v. if v = JObj [(''name'', JStr ''Cafe Y'')] then ''Y'' else ''?''),
       pickle_load = (\<lambda>s. if s = ''Y'' then Inr (JObj [(''name'', JStr ''Cafe Y'')])
                           else Inl UnpicklingError) \<rparr>"

definition empty_world :: world where
  "empty_world = \<lparr> disk = [], requested = [] \<rparr>"

text \<open>
  The response of the service to the request for the details of a place, the record it
  carries under \<^verbatim>\<open>result\<close>, the path of the file that \<^verbatim>\<open>data_from_ids_to_files\<close>
  writes for the place, and the world after that write.
\<close>

definition details_response :: "platform \<Rightarrow> string \<Rightarrow> string \<Rightarrow> response" where
  "details_response pf API_key ident = http_get pf (details_url ident API_key) [] []"

definition details_record :: "response \<Rightarrow> json option" where
  "details_record r =
     (case response_json r of
        Inl e \<Rightarrow> None
      | Inr body \<Rightarrow> (case py_getitem body ''result'' of Inl e \<Rightarrow> None | Inr d \<Rightarrow> Some d))"

definition record_path :: "string \<Rightarrow> string \<Rightarrow> string" where
  "record_path folder ident = folder @ ''/'' @ ident @ ''.pkl''"

definition store_record :: "platform \<Rightarrow> string \<Rightarrow> string \<Rightarrow> world \<Rightarrow> string \<Rightarrow> world" where
  "store_record pf folder API_key w ident =
     (case details_record (details_response pf API_key ident) of
        None \<Rightarrow> w
      | Some d \<Rightarrow> file_write w (record_path folder ident) (pickle_dump pf d))"

text \<open>The lines that \<^verbatim>\<open>readlines\<close> gives for a file of the disk.\<close>

definition file_lines :: "world \<Rightarrow> string \<Rightarrow> string list" where
  "file_lines w file_name =
     (case map_of (disk w) file_name of None \<Rightarrow> [] | Some content \<Rightarrow> readlines content)"

text \<open>
  A world with four identifier files: two of well-formed lines, one with a line of a
  single token, and one that ends in an empty line.
\<close>

definition ids_world :: world where
  "ids_world =
     \<lparr> disk = [(''a.txt'', ''0 abc'' @ [CHR 0x0A]),
               (''b.txt'', ''1 abc'' @ [CHR 0x0A] @ ''2 def'' @ [CHR 0x0A]),
               (''c.txt'', ''0 abc'' @ [CHR 0x0A] @ ''bad'' @ [CHR 0x0A] @ ''2 def'' @ [CHR 0x0A]),
               (''d.txt'', ''3 ghi'' @ [CHR 0x0A, CHR 0x0A])],
       requested = [] \<rparr>"

text \<open>
  The status of a response when it is a string, and the values that lines 121 to 126
  append to \<^verbatim>\<open>list_of_id\<close> for a response. The loop body of \<^verbatim>\<open>get_ids_from_grid\<close>
  passes a response when neither \<^verbatim>\<open>request_check\<close> nor these lines raise on it.
\<close>

definition status_of :: "response \<Rightarrow> string option" where
  "status_of r =
     (case response_json r of
        Inl e \<Rightarrow> None
      | Inr body \<Rightarrow>
          (case py_getitem body ''status'' of Inr (JStr s) \<Rightarrow> Some s | _ \<Rightarrow> None))"

definition nearby_values :: "response \<Rightarrow> error + json list" where
  "nearby_values r =
     (case response_json r of
        Inl e \<Rightarrow> Inl e
      | Inr dict \<Rightarrow>
          (case py_getitem dict ''results'' of
             Inl e \<Rightarrow> Inl e
           | Inr places \<Rightarrow>
               (case py_iter places of
                  Inl e \<Rightarrow> Inl e
                | Inr ps \<Rightarrow> append_place_ids ps [])))"

definition passes :: "response \<Rightarrow> bool" where
  "passes r =
     (request_check r = Inr () \<and> (case nearby_values r of Inl e \<Rightarrow> False | Inr vs \<Rightarrow> True))"

definition response_ids :: "response \<Rightarrow> string list" where
  "response_ids r = (case nearby_ids r of None \<Rightarrow> [] | Some ids \<Rightarrow> ids)"

text \<open>
  The loop of \<^verbatim>\<open>get_ids_from_grid\<close> reaches a point whose status is the string \<open>s\<close>,
  other than \<^verbatim>\<open>OK\<close> and \<^verbatim>\<open>ZERO_RESULTS\<close>: its body has passed every point before.
\<close>

fun reaches_denied :: "platform \<Rightarrow> string \<Rightarrow> string \<Rightarrow> pydict \<Rightarrow> pydict
    \<Rightarrow> (real \<times> real) list \<Rightarrow> string \<Rightarrow> bool" where
  "reaches_denied pf place_type API_key payload headers [] s = False"
| "reaches_denied pf place_type API_key payload headers (q # grid) s =
     ((status_of (nearby_response pf place_type API_key payload headers q) = Some s \<and>
        s \<noteq> ''OK'' \<and> s \<noteq> ''ZERO_RESULTS'')
      \<or> (passes (nearby_response pf place_type API_key payload headers q) \<and>
        reaches_denied pf place_type API_key payload headers grid s))"

text \<open>The files directly in a folder all hold what \<^verbatim>\<open>pickle.load\<close> accepts.\<close>

definition folder_loads :: "platform \<Rightarrow> world \<Rightarrow> string \<Rightarrow> bool" where
  "folder_loads pf w folder =
     (\<forall>f c. CHR ''/'' \<notin> set f \<and> map_of (disk w) (folder @ ''/'' @ f) = Some c \<longrightarrow>
        (\<exists>v. pickle_load pf c = Inr v))"

section \<open>Properties of the grid builder\<close>

lemma grid_point_ok:
  "npx l \<noteq> 0 \<Longrightarrow> npy l \<noteq> 0 \<Longrightarrow> grid_point l i j = Inr (lattice_point l i j)"
  by (simp add: grid_point_def py_truediv_def lattice_point_def)

lemma grid_point_zero:
  "npx l = 0 \<or> npy l = 0 \<Longrightarrow> grid_point l i j = Inl ZeroDivisionError"
  by (auto simp add: grid_point_def py_truediv_def)

lemma grid_inner_ok:
  "npx l \<noteq> 0 \<Longrightarrow> npy l \<noteq> 0 \<Longrightarrow>
   grid_inner l i js grid = Inr (grid @ map (lattice_point l i) js)"
  by (induction js arbitrary: grid) (simp_all add: grid_point_ok)

lemma grid_outer_ok:
  "npx l \<noteq> 0 \<Longrightarrow> npy l \<noteq> 0 \<Longrightarrow>
   grid_outer l is grid =
     Inr (grid @ concat (map (\<lambda>i. map (lattice_point l i) (py_range (npy l + 1))) is))"
  by (induction "is" arbitrary: grid) (simp_all add: grid_inner_ok)

lemma grid_outer_no_rows: "npy l < 0 \<Longrightarrow> grid_outer l is grid = Inr grid"
  by (induction "is" arbitrary: grid) (simp_all add: py_range_def)

lemma py_range_Cons: "0 < n \<Longrightarrow> py_range n = 0 # [1..n - 1]"
  by (simp add: py_range_def upto_rec1)

lemma grid_outer_zero:
  assumes "0 \<le> npx l" "0 \<le> npy l" "npx l = 0 \<or> npy l = 0"
  shows "grid_outer l (py_range (npx l + 1)) grid = Inl ZeroDivisionError"
proof -
  have "grid_point l 0 0 = Inl ZeroDivisionError"
    using assms(3) by (rule grid_point_zero)
  then have "grid_inner l 0 (py_range (npy l + 1)) grid = Inl ZeroDivisionError"
    using assms(2) by (simp add: py_range_Cons)
  then show ?thesis
    using assms(1) by (simp add: py_range_Cons)
qed

lemma gridMaker_cases:
  assumes "Point geo (fst C) (snd C) = Inr c"
    and "Point geo (fst T) (snd T) = Inr t"
    and "Point geo (fst B) (snd B) = Inr b"
  shows "gridMaker geo C T B x_step y_step =
     (if x_step = 0 \<or> y_step = 0 then Inl ZeroDivisionError
      else grid_outer
             (grid_frame c t b (py_int (geodesic geo c b / (x_step / 1000)))
                               (py_int (geodesic geo c t / (y_step / 1000))))
             (py_range (py_int (geodesic geo c b / (x_step / 1000)) + 1)) [])"
  using assms by (simp add: gridMaker_def py_truediv_def grid_frame_def Let_def)

lemma length_concat_const:
  "(\<And>x. x \<in> set xs \<Longrightarrow> length (f x) = n) \<Longrightarrow> length (concat (map f xs)) = length xs * n"
  by (induction xs) simp_all


lemma grid_frame_simps [simp]:
  "npx (grid_frame c t b nx ny) = nx" "npy (grid_frame c t b nx ny) = ny"
  "center (grid_frame c t b nx ny) = c"
  by (simp_all add: grid_frame_def)

lemma gridMaker_positive:
  assumes P: "Point geo (fst C) (snd C) = Inr c" "Point geo (fst T) (snd T) = Inr t"
      "Point geo (fst B) (snd B) = Inr b"
    and steps: "x_step \<noteq> 0" "y_step \<noteq> 0"
    and nx: "1 \<le> py_int (geodesic geo c b / (x_step / 1000))"
    and ny: "1 \<le> py_int (geodesic geo c t / (y_step / 1000))"
  shows "gridMaker geo C T B x_step y_step =
     Inr (concat (map (\<lambda>i. map (lattice_point
            (grid_frame c t b (py_int (geodesic geo c b / (x_step / 1000)))
                              (py_int (geodesic geo c t / (y_step / 1000)))) i)
            [0..py_int (geodesic geo c t / (y_step / 1000))])
          [0..py_int (geodesic geo c b / (x_step / 1000))]))"
  using steps nx ny
  by (simp add: gridMaker_cases [OF P] grid_outer_ok py_range_def)

lemma gridMaker_degenerate:
  assumes P: "Point geo (fst C) (snd C) = Inr c" "Point geo (fst T) (snd T) = Inr t"
      "Point geo (fst B) (snd B) = Inr b"
    and nx: "0 \<le> py_int (geodesic geo c b / (x_step / 1000))"
    and ny: "0 \<le> py_int (geodesic geo c t / (y_step / 1000))"
    and z: "py_int (geodesic geo c b / (x_step / 1000)) = 0 \<or>
            py_int (geodesic geo c t / (y_step / 1000)) = 0"
  shows "gridMaker geo C T B x_step y_step = Inl ZeroDivisionError"
proof (cases "x_step = 0 \<or> y_step = 0")
  case True
  then show ?thesis by (simp add: gridMaker_cases [OF P])
next
  case False
  let ?l = "grid_frame c t b (py_int (geodesic geo c b / (x_step / 1000)))
                              (py_int (geodesic geo c t / (y_step / 1000)))"
  have "grid_outer ?l (py_range (npx ?l + 1)) [] = Inl ZeroDivisionError"
    using nx ny z by (intro grid_outer_zero) simp_all
  with False show ?thesis by (simp add: gridMaker_cases [OF P])
qed

lemma gridMaker_negative:
  assumes P: "Point geo (fst C) (snd C) = Inr c" "Point geo (fst T) (snd T) = Inr t"
      "Point geo (fst B) (snd B) = Inr b"
    and steps: "x_step \<noteq> 0" "y_step \<noteq> 0"
    and neg: "py_int (geodesic geo c b / (x_step / 1000)) < 0 \<or>
            py_int (geodesic geo c t / (y_step / 1000)) < 0"
  shows "gridMaker geo C T B x_step y_step = Inr []"
proof (cases "py_int (geodesic geo c b / (x_step / 1000)) < 0")
  case True
  with steps show ?thesis by (simp add: gridMaker_cases [OF P] py_range_def)
next
  case False
  with neg have "py_int (geodesic geo c t / (y_step / 1000)) < 0" by simp
  with steps show ?thesis by (simp add: gridMaker_cases [OF P] grid_outer_no_rows)
qed

lemma py_int_pos: "0 \<le> x \<Longrightarrow> py_int x = \<lfloor>x\<rfloor>"
  by (simp add: py_int_def)

lemma py_int_sign: "x \<le> 0 \<Longrightarrow> py_int x \<le> 0"
  by (auto simp add: py_int_def)

lemma hd_lattice: "nx \<noteq> 0 \<Longrightarrow> ny \<noteq> 0 \<Longrightarrow> lattice_point (grid_frame c t b nx ny) 0 0 = (latitude c, longitude c)"
  by (simp add: lattice_point_def)

text \<open>
  Claim C1. With positive steps and positive distances from \<open>C\<close> to \<open>B\<close> and to \<open>T\<close>,
  \<^verbatim>\<open>gridMaker\<close> returns the points \<open>(i, j)\<close> for \<open>i\<close> from 0 to
  \<open>\<lfloor>|CB| / (x_step/1000)\<rfloor>\<close> and, inside, \<open>j\<close> from 0 to \<open>\<lfloor>|CT| / (y_step/1000)\<rfloor>\<close>,
  so the product of the two numbers of steps plus one in all, the first of them \<open>C\<close>:
  this holds when both numbers of steps are at least 1. When one of them is 0 (a distance
  shorter than its step) the call raises ZeroDivisionError instead, at the first point.
  \<open>C\<close> is taken to be stored unchanged by geopy.
\<close>

theorem gridMaker_count_order_first:
  assumes P: "Point geo (fst C) (snd C) = Inr c" "Point geo (fst T) (snd T) = Inr t"
      "Point geo (fst B) (snd B) = Inr b"
    and kept: "latitude c = fst C" "longitude c = snd C"
    and steps: "0 < x_step" "0 < y_step"
    and dist: "0 < geodesic geo c b" "0 < geodesic geo c t"
  shows "gridMaker geo C T B x_step y_step =
     (if \<lfloor>geodesic geo c b / (x_step / 1000)\<rfloor> = 0 \<or> \<lfloor>geodesic geo c t / (y_step / 1000)\<rfloor> = 0
      then Inl ZeroDivisionError
      else Inr (concat (map (\<lambda>i. map (lattice_point
            (grid_frame c t b \<lfloor>geodesic geo c b / (x_step / 1000)\<rfloor>
                              \<lfloor>geodesic geo c t / (y_step / 1000)\<rfloor>) i)
            [0..\<lfloor>geodesic geo c t / (y_step / 1000)\<rfloor>])
          [0..\<lfloor>geodesic geo c b / (x_step / 1000)\<rfloor>])))
     \<and> (case gridMaker geo C T B x_step y_step of
          Inl e \<Rightarrow> True
        | Inr grid \<Rightarrow>
            length grid = nat ((\<lfloor>geodesic geo c b / (x_step / 1000)\<rfloor> + 1) *
                               (\<lfloor>geodesic geo c t / (y_step / 1000)\<rfloor> + 1))
            \<and> hd grid = C)"
proof -
  let ?qx = "geodesic geo c b / (x_step / 1000)"
  let ?qy = "geodesic geo c t / (y_step / 1000)"
  have q: "0 \<le> ?qx" "0 \<le> ?qy"
    using steps dist by simp_all
  then have pi: "py_int ?qx = \<lfloor>?qx\<rfloor>" "py_int ?qy = \<lfloor>?qy\<rfloor>"
    by (simp_all add: py_int_pos)
  have f0: "0 \<le> \<lfloor>?qx\<rfloor>" "0 \<le> \<lfloor>?qy\<rfloor>"
    using q by simp_all
  show ?thesis
  proof (cases "\<lfloor>?qx\<rfloor> = 0 \<or> \<lfloor>?qy\<rfloor> = 0")
    case True
    have "gridMaker geo C T B x_step y_step = Inl ZeroDivisionError"
      using True f0 by (intro gridMaker_degenerate [OF P]) (simp_all only: pi)
    with True show ?thesis by simp
  next
    case False
    with f0 have ge: "1 \<le> \<lfloor>?qx\<rfloor>" "1 \<le> \<lfloor>?qy\<rfloor>" by linarith+
    let ?l = "grid_frame c t b \<lfloor>?qx\<rfloor> \<lfloor>?qy\<rfloor>"
    let ?g = "concat (map (\<lambda>i. map (lattice_point ?l i) [0..\<lfloor>?qy\<rfloor>]) [0..\<lfloor>?qx\<rfloor>])"
    have g: "gridMaker geo C T B x_step y_step = Inr ?g"
      using gridMaker_positive [OF P, of x_step y_step, unfolded pi] steps ge by simp
    have len: "length ?g = nat ((\<lfloor>?qx\<rfloor> + 1) * (\<lfloor>?qy\<rfloor> + 1))"
      using f0 by (subst length_concat_const [where n = "nat (\<lfloor>?qy\<rfloor> + 1)"])
        (simp_all add: nat_mult_distrib)
    have "[0..\<lfloor>?qx\<rfloor>] = 0 # [1..\<lfloor>?qx\<rfloor>]" "[0..\<lfloor>?qy\<rfloor>] = 0 # [1..\<lfloor>?qy\<rfloor>]"
      using f0 by (simp_all add: upto_rec1)
    then have "hd ?g = lattice_point ?l 0 0" by simp
    also have "\<dots> = (latitude c, longitude c)"
      using ge by (intro hd_lattice) linarith+
    also have "\<dots> = C"
      using kept by (simp add: prod_eq_iff)
    finally have hd: "hd ?g = C" .
    from False g len hd show ?thesis by simp
  qed
qed

theorem gridMaker_count_order_first_witness:
  "gridMaker flat_geopy (0, 0) (1, 0) (0, 1 / 1000) 1000 1000 = Inl ZeroDivisionError
   \<and> (case gridMaker flat_geopy (0, 0) (2 / 100, 0) (0, 1 / 100) 1000 1000 of
         Inl e \<Rightarrow> False
       | Inr grid \<Rightarrow> length grid = 6 \<and> hd grid = (0, 0))"
proof -
  let ?c = "\<lparr> latitude = 0, longitude = 0 \<rparr>"
  have a: "gridMaker flat_geopy (0, 0) (1, 0) (0, 1 / 1000) 1000 1000 = Inl ZeroDivisionError"
    using gridMaker_count_order_first [of flat_geopy "(0, 0)" ?c "(1, 0)"
        "\<lparr> latitude = 1, longitude = 0 \<rparr>" "(0, 1 / 1000)"
        "\<lparr> latitude = 0, longitude = 1 / 1000 \<rparr>" 1000 1000]
    by (simp add: flat_geopy_def)
  let ?t = "\<lparr> latitude = 2 / 100, longitude = 0 \<rparr>"
  let ?b = "\<lparr> latitude = 0, longitude = 1 / 100 \<rparr>"
  have g: "gridMaker flat_geopy (0, 0) (2 / 100, 0) (0, 1 / 100) 1000 1000 =
      Inr (concat (map (\<lambda>i. map (lattice_point (grid_frame ?c ?t ?b 1 2) i) [0..2]) [0..1]))"
    using gridMaker_count_order_first [of flat_geopy "(0, 0)" ?c "(2 / 100, 0)" ?t
        "(0, 1 / 100)" ?b 1000 1000, THEN conjunct1]
    by (simp add: flat_geopy_def)
  have b: "case gridMaker flat_geopy (0, 0) (2 / 100, 0) (0, 1 / 100) 1000 1000 of
         Inl e \<Rightarrow> False
       | Inr grid \<Rightarrow> length grid = 6 \<and> hd grid = (0, 0)"
    by (subst g) (simp add: upto_rec1 lattice_point_def grid_frame_def)
  from a b show ?thesis by simp
qed

text \<open>
  Claim C7. With positive steps and positive distances, a number of steps equal to 0 on
  either axis does not give a grid of a single column or row: \<^verbatim>\<open>gridMaker\<close> raises
  ZeroDivisionError, from \<^verbatim>\<open>i/npx\<close> or \<^verbatim>\<open>j/npy\<close> at the first point.
\<close>

theorem gridMaker_zero_steps_raises:
  assumes P: "Point geo (fst C) (snd C) = Inr c" "Point geo (fst T) (snd T) = Inr t"
      "Point geo (fst B) (snd B) = Inr b"
    and steps: "0 < x_step" "0 < y_step"
    and dist: "0 < geodesic geo c b" "0 < geodesic geo c t"
    and zero: "\<lfloor>geodesic geo c b / (x_step / 1000)\<rfloor> = 0 \<or>
               \<lfloor>geodesic geo c t / (y_step / 1000)\<rfloor> = 0"
  shows "gridMaker geo C T B x_step y_step = Inl ZeroDivisionError"
proof -
  have q: "0 \<le> geodesic geo c b / (x_step / 1000)" "0 \<le> geodesic geo c t / (y_step / 1000)"
    using steps dist by simp_all
  then have pi: "py_int (geodesic geo c b / (x_step / 1000)) = \<lfloor>geodesic geo c b / (x_step / 1000)\<rfloor>"
      "py_int (geodesic geo c t / (y_step / 1000)) = \<lfloor>geodesic geo c t / (y_step / 1000)\<rfloor>"
    by (simp_all add: py_int_pos)
  have f0: "0 \<le> \<lfloor>geodesic geo c b / (x_step / 1000)\<rfloor>"
      "0 \<le> \<lfloor>geodesic geo c t / (y_step / 1000)\<rfloor>"
    using q by simp_all
  show ?thesis
    using zero f0 by (intro gridMaker_degenerate [OF P]) (simp_all only: pi)
qed

theorem gridMaker_zero_steps_raises_witness:
  "gridMaker flat_geopy (0, 0) (1 / 1000, 0) (0, 1) 1000 1000 = Inl ZeroDivisionError"
  using gridMaker_zero_steps_raises [of flat_geopy "(0, 0)" "\<lparr> latitude = 0, longitude = 0 \<rparr>"
      "(1 / 1000, 0)" "\<lparr> latitude = 1 / 1000, longitude = 0 \<rparr>" "(0, 1)"
      "\<lparr> latitude = 0, longitude = 1 \<rparr>" 1000 1000]
  by (simp add: flat_geopy_def)

text \<open>
  Claim C4, as stated, fails: with a negative \<^verbatim>\<open>x_step\<close> the call below does not fail
  at all, it returns the empty grid.
\<close>

theorem gridMaker_negative_step_counterexample:
  "gridMaker flat_geopy (0, 0) (1, 0) (0, 1) (- 1000) 1000 = Inr []"
  by (simp add: gridMaker_def flat_geopy_def py_truediv_def py_int_def py_range_def)

text \<open>
  Claim C4, amended. \<^verbatim>\<open>gridMaker\<close> validates nothing and has no error of its own. When a
  step is zero the call raises ZeroDivisionError; when both steps are positive and \<open>B\<close>
  or \<open>T\<close> is at distance zero from \<open>C\<close> it raises ZeroDivisionError; when a step is
  negative it raises ZeroDivisionError or returns the empty grid. Distances are taken to
  be non-negative. In every case the call ends: both loops run over finite ranges.
\<close>

theorem gridMaker_invalid_spec:
  assumes P: "Point geo (fst C) (snd C) = Inr c" "Point geo (fst T) (snd T) = Inr t"
      "Point geo (fst B) (snd B) = Inr b"
    and dist: "0 \<le> geodesic geo c b" "0 \<le> geodesic geo c t"
  shows "(x_step = 0 \<or> y_step = 0 \<longrightarrow>
            gridMaker geo C T B x_step y_step = Inl ZeroDivisionError)
       \<and> (0 < x_step \<and> 0 < y_step \<and> (geodesic geo c b = 0 \<or> geodesic geo c t = 0) \<longrightarrow>
            gridMaker geo C T B x_step y_step = Inl ZeroDivisionError)
       \<and> (x_step < 0 \<or> y_step < 0 \<longrightarrow>
            gridMaker geo C T B x_step y_step = Inl ZeroDivisionError
            \<or> gridMaker geo C T B x_step y_step = Inr [])"
proof (intro conjI impI)
  assume "x_step = 0 \<or> y_step = 0"
  then show "gridMaker geo C T B x_step y_step = Inl ZeroDivisionError"
    by (simp add: gridMaker_cases [OF P])
next
  assume a: "0 < x_step \<and> 0 < y_step \<and> (geodesic geo c b = 0 \<or> geodesic geo c t = 0)"
  then have q: "0 \<le> geodesic geo c b / (x_step / 1000)" "0 \<le> geodesic geo c t / (y_step / 1000)"
    using dist by simp_all
  have "py_int (geodesic geo c b / (x_step / 1000)) = 0 \<or>
        py_int (geodesic geo c t / (y_step / 1000)) = 0"
    using a by (auto simp add: py_int_def)
  moreover have "0 \<le> py_int (geodesic geo c b / (x_step / 1000))"
      "0 \<le> py_int (geodesic geo c t / (y_step / 1000))"
    using q by (simp_all add: py_int_pos)
  ultimately show "gridMaker geo C T B x_step y_step = Inl ZeroDivisionError"
    by (intro gridMaker_degenerate [OF P])
next
  assume neg: "x_step < 0 \<or> y_step < 0"
  let ?nx = "py_int (geodesic geo c b / (x_step / 1000))"
  let ?ny = "py_int (geodesic geo c t / (y_step / 1000))"
  show "gridMaker geo C T B x_step y_step = Inl ZeroDivisionError
        \<or> gridMaker geo C T B x_step y_step = Inr []"
  proof (cases "x_step = 0 \<or> y_step = 0")
    case True
    then show ?thesis by (simp add: gridMaker_cases [OF P])
  next
    case False
    then have nz: "x_step \<noteq> 0" "y_step \<noteq> 0" by simp_all
    show ?thesis
    proof (cases "?nx < 0 \<or> ?ny < 0")
      case True
      then show ?thesis using gridMaker_negative [OF P nz] by simp
    next
      case nonneg: False
      have "?nx \<le> 0 \<or> ?ny \<le> 0"
      proof (rule disjE [OF neg])
        assume "x_step < 0"
        then have "geodesic geo c b / (x_step / 1000) \<le> 0"
          using dist(1) by (simp add: divide_nonneg_neg)
        then show ?thesis by (simp add: py_int_sign)
      next
        assume "y_step < 0"
        then have "geodesic geo c t / (y_step / 1000) \<le> 0"
          using dist(2) by (simp add: divide_nonneg_neg)
        then show ?thesis by (simp add: py_int_sign)
      qed
      with nonneg have "?nx = 0 \<or> ?ny = 0" by linarith
      moreover from nonneg have "0 \<le> ?nx" "0 \<le> ?ny" by simp_all
      ultimately have "gridMaker geo C T B x_step y_step = Inl ZeroDivisionError"
        by (intro gridMaker_degenerate [OF P])
      then show ?thesis by simp
    qed
  qed
qed

theorem gridMaker_invalid_spec_witness:
  "gridMaker flat_geopy (0, 0) (1, 0) (0, 1) 0 1000 = Inl ZeroDivisionError
   \<and> gridMaker flat_geopy (0, 0) (1, 0) (0, 0) 1000 1000 = Inl ZeroDivisionError
   \<and> gridMaker flat_geopy (0, 0) (1, 0) (0, 1) 1000 (- 1000) = Inr []"
proof -
  let ?c = "\<lparr> latitude = 0, longitude = 0 \<rparr>"
  let ?t = "\<lparr> latitude = 1, longitude = 0 \<rparr>"
  let ?b = "\<lparr> latitude = 0, longitude = 1 \<rparr>"
  have a: "gridMaker flat_geopy (0, 0) (1, 0) (0, 1) 0 1000 = Inl ZeroDivisionError"
    using gridMaker_invalid_spec [of flat_geopy "(0, 0)" ?c "(1, 0)" ?t "(0, 1)" ?b 0 1000]
    by (simp add: flat_geopy_def)
  have b: "gridMaker flat_geopy (0, 0) (1, 0) (0, 0) 1000 1000 = Inl ZeroDivisionError"
    using gridMaker_invalid_spec [of flat_geopy "(0, 0)" ?c "(1, 0)" ?t "(0, 0)" ?c 1000 1000]
    by (simp add: flat_geopy_def)
  have "gridMaker flat_geopy (0, 0) (1, 0) (0, 1) 1000 (- 1000) \<noteq> Inl ZeroDivisionError"
    by (simp add: gridMaker_def flat_geopy_def py_truediv_def py_int_def grid_outer_no_rows)
  then have c: "gridMaker flat_geopy (0, 0) (1, 0) (0, 1) 1000 (- 1000) = Inr []"
    using gridMaker_invalid_spec [of flat_geopy "(0, 0)" ?c "(1, 0)" ?t "(0, 1)" ?b 1000 "- 1000"]
    by (simp add: flat_geopy_def)
  from a b c show ?thesis by simp
qed

section \<open>Properties of the fault-tolerant collector\<close>

lemma ids_to_file_loop_fail_step:
  assumes "check_fails (nearby_response pf place_type API_key payload headers point)"
  shows "ids_to_file_loop pf place_type file_name API_key payload headers ((i, point) # rest)
           error_points w =
         ids_to_file_loop pf place_type file_name API_key payload headers rest
           (error_points @ [point])
           (w\<lparr> requested := requested w @ [point_url pf place_type API_key point] \<rparr>)"
  using assms
  by (simp add: check_fails_def nearby_response_def point_url_def requests_request_def
      split: sum.splits)

lemma ids_to_file_loop_all_fail:
  assumes "\<forall>x\<in>set xs. check_fails (nearby_response pf place_type API_key payload headers (snd x))"
  shows "ids_to_file_loop pf place_type file_name API_key payload headers xs error_points w =
         (Inr None,
          w\<lparr> requested := requested w @ map (\<lambda>x. point_url pf place_type API_key (snd x)) xs \<rparr>)"
  using assms
proof (induction xs arbitrary: error_points w)
  case Nil
  then show ?case by simp
next
  case (Cons x xs)
  obtain i point where x: "x = (i, point)" by (cases x)
  from Cons.prems have "check_fails (nearby_response pf place_type API_key payload headers point)"
    by (simp add: x)
  then show ?case
    using Cons by (simp add: x ids_to_file_loop_fail_step del: ids_to_file_loop.simps)
qed

lemma file_append_append:
  "file_append (file_append w p s) p t = file_append w p (s @ t)"
  by (simp add: file_append_def update_conv')

lemma write_ids_ok:
  "place_ids_of ps = Some ids \<Longrightarrow>
   write_ids i file_name ps (file_append w file_name s) =
     (Inr (), file_append w file_name (s @ concat (map (id_line i) ids)))"
proof (induction ps arbitrary: ids s)
  case Nil
  then show ?case by simp
next
  case (Cons p ps)
  then show ?case
    by (auto simp add: file_append_append id_line_def split: sum.splits json.splits)
qed

lemma ids_to_file_loop_success_step:
  assumes ok: "request_check (nearby_response pf place_type API_key payload headers point) = Inr ()"
    and ids: "nearby_ids (nearby_response pf place_type API_key payload headers point) = Some ids"
  shows "ids_to_file_loop pf place_type file_name API_key payload headers ((i, point) # rest)
           error_points w =
         (Inr (Some error_points),
          file_append (w\<lparr> requested := requested w @ [point_url pf place_type API_key point] \<rparr>)
            file_name (concat (map (id_line i) ids)))"
  using assms
  by (auto simp add: nearby_response_def point_url_def requests_request_def nearby_ids_def
      write_ids_ok [where s = "[]", simplified] Let_def
      split: sum.splits prod.splits)

lemma ids_to_file_loop_first_success:
  assumes fails: "\<forall>x\<in>set pre. check_fails (nearby_response pf place_type API_key payload headers (snd x))"
    and ok: "request_check (nearby_response pf place_type API_key payload headers point) = Inr ()"
    and ids: "nearby_ids (nearby_response pf place_type API_key payload headers point) = Some ids"
  shows "ids_to_file_loop pf place_type file_name API_key payload headers
           (pre @ (i, point) # rest) error_points w =
         (Inr (Some (error_points @ map snd pre)),
          file_append
            (w\<lparr> requested := requested w @
                   map (\<lambda>x. point_url pf place_type API_key (snd x)) (pre @ [(i, point)]) \<rparr>)
            file_name (concat (map (id_line i) ids)))"
  using fails
proof (induction pre arbitrary: error_points w)
  case Nil
  then show ?case
    by (simp add: ids_to_file_loop_success_step [OF ok ids] del: ids_to_file_loop.simps)
next
  case (Cons x pre)
  obtain j q where x: "x = (j, q)" by (cases x)
  from Cons.prems have "check_fails (nearby_response pf place_type API_key payload headers q)"
    by (simp add: x)
  then show ?case
    using Cons by (simp add: x ids_to_file_loop_fail_step del: ids_to_file_loop.simps)
qed

lemma map_snd_enumerate_fun:
  "map (\<lambda>x. f (snd x)) (List.enumerate n xs) = map f xs"
  by (induction xs arbitrary: n) simp_all

lemma enumerate_fails:
  "\<forall>p\<in>set xs. P p \<Longrightarrow> \<forall>x\<in>set (List.enumerate n xs). P (snd x)"
  by (induction xs arbitrary: n) simp_all

text \<open>
  Claim C10. When \<^verbatim>\<open>request_check\<close> raises on the response of every point of the grid
  (in particular when the grid is empty), \<^verbatim>\<open>ids_to_file_from_grid\<close> returns \<^verbatim>\<open>None\<close>,
  not the list of the failed points: it has requested every point and has left the file
  empty.
\<close>

theorem ids_to_file_from_grid_all_fail:
  assumes "\<forall>p\<in>set grid. check_fails (nearby_response pf place_type API_key payload headers p)"
  shows "ids_to_file_from_grid pf grid place_type file_name API_key payload headers w =
     (Inr None,
      (file_write w file_name [])
        \<lparr> requested := requested w @ map (point_url pf place_type API_key) grid \<rparr>)"
proof -
  have "\<forall>x\<in>set (List.enumerate 0 grid).
          check_fails (nearby_response pf place_type API_key payload headers (snd x))"
    using assms by (rule enumerate_fails)
  then show ?thesis
    unfolding ids_to_file_from_grid_def
    by (simp add: ids_to_file_loop_all_fail map_snd_enumerate_fun file_write_def)
qed

text \<open>
  Claim C2. Let \<open>p\<close> be the first point of the grid whose response passes
  \<^verbatim>\<open>request_check\<close>, the points \<open>pre\<close> before it all failing, and let its response
  carry the identifiers \<open>ids\<close>. Then \<^verbatim>\<open>ids_to_file_from_grid\<close> returns the error list
  \<open>pre\<close>, after writing the lines of \<open>p\<close> and requesting \<open>pre\<close> and \<open>p\<close> only: the
  points \<open>post\<close> after \<open>p\<close> are never requested.
\<close>

theorem ids_to_file_from_grid_first_success:
  assumes grid: "grid = pre @ p # post"
    and fails: "\<forall>q\<in>set pre. check_fails (nearby_response pf place_type API_key payload headers q)"
    and ok: "request_check (nearby_response pf place_type API_key payload headers p) = Inr ()"
    and ids: "nearby_ids (nearby_response pf place_type API_key payload headers p) = Some ids"
  shows "ids_to_file_from_grid pf grid place_type file_name API_key payload headers w =
     (Inr (Some pre),
      file_append
        ((file_write w file_name [])
           \<lparr> requested := requested w @ map (point_url pf place_type API_key) (pre @ [p]) \<rparr>)
        file_name (concat (map (id_line (length pre)) ids)))"
proof -
  let ?pre = "List.enumerate 0 pre"
  have z: "List.enumerate 0 grid = ?pre @ (length pre, p) # List.enumerate (Suc (length pre)) post"
    unfolding grid by (simp add: enumerate_append_eq)
  have f: "\<forall>x\<in>set ?pre.
          check_fails (nearby_response pf place_type API_key payload headers (snd x))"
    using fails by (rule enumerate_fails)
  show ?thesis
    unfolding ids_to_file_from_grid_def z
    by (simp add: ids_to_file_loop_first_success [OF f ok ids] map_snd_enumerate_fun
        file_write_def del: ids_to_file_loop.simps)
qed

lemma demo_urls:
  "point_url demo_platform ''cafe'' ''KEY'' (0, 0) = nearby_url ''0.0'' ''0.0'' ''cafe'' ''KEY''"
  "point_url demo_platform ''cafe'' ''KEY'' (0, 1) = nearby_url ''0.0'' ''1.0'' ''cafe'' ''KEY''"
  "point_url demo_platform ''cafe'' ''KEY'' (0, 2) = nearby_url ''0.0'' ''2.0'' ''cafe'' ''KEY''"
  "point_url demo_platform ''cafe'' ''KEY'' (1, 1) = nearby_url ''1.0'' ''1.0'' ''cafe'' ''KEY''"
  by (simp_all add: point_url_def demo_platform_def)

lemma demo_nearby:
  "nearby_response demo_platform ''cafe'' ''KEY'' [] [] (0, 0) =
     Body (JObj [(''status'', JStr ''REQUEST_DENIED'')])"
  "nearby_response demo_platform ''cafe'' ''KEY'' [] [] (1, 1) =
     Body (JObj [(''status'', JStr ''REQUEST_DENIED'')])"
  "nearby_response demo_platform ''cafe'' ''KEY'' [] [] (0, 1) =
     Body (JObj [(''status'', JStr ''OK''),
                 (''results'', JArr [JObj [(''place_id'', JStr ''a'')],
                                     JObj [(''place_id'', JStr ''b'')]])])"
  "nearby_response demo_platform ''cafe'' ''KEY'' [] [] (0, 2) =
     Body (JObj [(''status'', JStr ''OK''),
                 (''results'', JArr [JObj [(''place_id'', JStr ''b'')],
                                     JObj [(''place_id'', JStr ''c'')]])])"
  by (simp_all add: nearby_response_def demo_urls, simp_all add: demo_platform_def nearby_url_def details_url_def)

theorem ids_to_file_from_grid_all_fail_witness:
  "fst (ids_to_file_from_grid demo_platform [(0, 0), (1, 1)] ''cafe'' ''ids.txt'' ''KEY'' [] []
     empty_world) = Inr None"
  using ids_to_file_from_grid_all_fail [where grid = "[(0, 0), (1, 1)]" and pf = demo_platform
      and place_type = "''cafe''" and API_key = "''KEY''" and payload = "[]" and headers = "[]"
      and file_name = "''ids.txt''" and w = empty_world]
  by (simp add: demo_nearby check_fails_def request_check_def response_json_def)

theorem ids_to_file_from_grid_first_success_witness:
  "ids_to_file_from_grid demo_platform [(0, 0), (0, 1), (0, 2)] ''cafe'' ''ids.txt'' ''KEY'' [] []
     empty_world =
   (Inr (Some [(0, 0)]),
    \<lparr> disk = [(''ids.txt'', ''1 a'' @ [CHR 0x0A] @ ''1 b'' @ [CHR 0x0A])],
      requested = [nearby_url ''0.0'' ''0.0'' ''cafe'' ''KEY'',
                   nearby_url ''0.0'' ''1.0'' ''cafe'' ''KEY''] \<rparr>)"
  using ids_to_file_from_grid_first_success [where grid = "[(0, 0), (0, 1), (0, 2)]"
      and pre = "[(0, 0)]" and p = "(0, 1)" and post = "[(0, 2)]" and pf = demo_platform
      and place_type = "''cafe''" and API_key = "''KEY''" and payload = "[]" and headers = "[]"
      and ids = "[''a'', ''b'']" and file_name = "''ids.txt''" and w = empty_world]
  by (simp add: demo_nearby demo_urls check_fails_def request_check_def response_json_def
      nearby_ids_def id_line_def str_nat.simps file_append_def file_write_def empty_world_def)

section \<open>Properties of the detail fetcher\<close>

lemma store_record_requested:
  "store_record pf folder API_key (w\<lparr> requested := r \<rparr>) ident =
   (store_record pf folder API_key w ident)\<lparr> requested := r \<rparr>"
  by (simp add: store_record_def file_write_def split: option.splits)

lemma foldl_store_record_requested:
  "foldl (store_record pf folder API_key) (w\<lparr> requested := r \<rparr>) xs =
   (foldl (store_record pf folder API_key) w xs)\<lparr> requested := r \<rparr>"
  by (induction xs arbitrary: w) (simp_all add: store_record_requested)

lemma requested_foldl_store_record [simp]:
  "requested (foldl (store_record pf folder API_key) w xs) = requested w"
  by (induction xs arbitrary: w) (simp_all add: store_record_def file_write_def split: option.splits)

lemma data_to_files_loop_fail_step:
  assumes "request_check (details_response pf API_key ident) = Inl e"
  shows "data_to_files_loop pf folder API_key (ident # ids) error_ids w =
         data_to_files_loop pf folder API_key ids (error_ids @ [ident])
           (w\<lparr> requested := requested w @ [details_url ident API_key] \<rparr>)"
  using assms by (simp add: details_response_def requests_request_def)

lemma data_to_files_loop_success_step:
  assumes "request_check (details_response pf API_key ident) = Inr ()"
    and "details_record (details_response pf API_key ident) = Some d"
  shows "data_to_files_loop pf folder API_key (ident # ids) error_ids w =
         data_to_files_loop pf folder API_key ids error_ids
           (store_record pf folder API_key
              (w\<lparr> requested := requested w @ [details_url ident API_key] \<rparr>) ident)"
  using assms
  by (auto simp add: details_response_def requests_request_def details_record_def
      store_record_def record_path_def split: sum.splits)

lemma data_to_files_loop_propagates:
  assumes "request_check (details_response pf API_key ident) = Inr ()"
    and "details_record (details_response pf API_key ident) = None"
  shows "\<exists>e. data_to_files_loop pf folder API_key (ident # ids) error_ids w =
           (Inl e, w\<lparr> requested := requested w @ [details_url ident API_key] \<rparr>)"
  using assms
  by (auto simp add: details_response_def requests_request_def details_record_def
      split: sum.splits)

lemma check_fails_iff: "check_fails r \<longleftrightarrow> (\<exists>e. request_check r = Inl e)"
  by (simp add: check_fails_def split: sum.splits)

lemma not_check_fails_iff: "\<not> check_fails r \<longleftrightarrow> request_check r = Inr ()"
  by (simp add: check_fails_def split: sum.splits)

lemma data_to_files_loop_all:
  assumes "\<forall>i\<in>set ids. \<not> check_fails (details_response pf API_key i) \<longrightarrow>
             details_record (details_response pf API_key i) \<noteq> None"
  shows "data_to_files_loop pf folder API_key ids error_ids w =
     (Inr (error_ids @ filter (\<lambda>i. check_fails (details_response pf API_key i)) ids),
      foldl (store_record pf folder API_key)
        (w\<lparr> requested := requested w @ map (\<lambda>i. details_url i API_key) ids \<rparr>)
        (filter (\<lambda>i. \<not> check_fails (details_response pf API_key i)) ids))"
  using assms
proof (induction ids arbitrary: error_ids w)
  case Nil
  then show ?case by simp
next
  case (Cons ident ids)
  show ?case
  proof (cases "check_fails (details_response pf API_key ident)")
    case True
    then obtain e where "request_check (details_response pf API_key ident) = Inl e"
      by (auto simp add: check_fails_iff)
    then show ?thesis
      using True Cons by (simp add: data_to_files_loop_fail_step del: data_to_files_loop.simps)
  next
    case False
    then have ok: "request_check (details_response pf API_key ident) = Inr ()"
      by (simp add: not_check_fails_iff)
    from False Cons.prems obtain d where d: "details_record (details_response pf API_key ident) = Some d"
      by auto
    show ?thesis
      using False Cons
      by (simp add: data_to_files_loop_success_step [OF ok d] store_record_requested
          foldl_store_record_requested del: data_to_files_loop.simps)
  qed
qed

lemma demo_details:
  "details_response demo_platform ''KEY'' ''x'' = Body (JObj [(''status'', JStr ''REQUEST_DENIED'')])"
  "details_response demo_platform ''KEY'' ''y'' =
     Body (JObj [(''status'', JStr ''OK''), (''result'', JObj [(''name'', JStr ''Cafe Y'')])])"
  "details_response demo_platform ''KEY'' ''z'' = Body (JObj [])"
  by (simp_all add: details_response_def demo_platform_def nearby_url_def details_url_def)

text \<open>
  Claim C6. \<^verbatim>\<open>data_from_ids_to_files\<close> requests every identifier of its input, in
  order. It returns the identifiers on whose response \<^verbatim>\<open>request_check\<close> raises, and for
  each of the others it has written the serialized record to \<^verbatim>\<open>folder/id.pkl\<close>, and
  nothing else. A response that passes the check is taken to carry a \<^verbatim>\<open>result\<close>, as
  the service documents.
\<close>

theorem data_from_ids_to_files_processes_all:
  assumes "\<forall>i\<in>set ids. \<not> check_fails (details_response pf API_key i) \<longrightarrow>
             details_record (details_response pf API_key i) \<noteq> None"
  shows "data_from_ids_to_files pf ids folder API_key payload headers w =
     (Inr (filter (\<lambda>i. check_fails (details_response pf API_key i)) ids),
      foldl (store_record pf folder API_key)
        (w\<lparr> requested := requested w @ map (\<lambda>i. details_url i API_key) ids \<rparr>)
        (filter (\<lambda>i. \<not> check_fails (details_response pf API_key i)) ids))"
  unfolding data_from_ids_to_files_def
  using data_to_files_loop_all [OF assms, of folder "[]" w] by simp

theorem data_from_ids_to_files_processes_all_witness:
  "data_from_ids_to_files demo_platform [''x'', ''y''] ''pkls'' ''KEY'' [] [] empty_world =
   (Inr [''x''],
    \<lparr> disk = [(''pkls/y.pkl'', ''Y'')],
      requested = [details_url ''x'' ''KEY'', details_url ''y'' ''KEY''] \<rparr>)"
  using data_from_ids_to_files_processes_all [where ids = "[''x'', ''y'']" and pf = demo_platform
      and API_key = "''KEY''" and folder = "''pkls''" and payload = "[]" and headers = "[]"
      and w = empty_world]
  by (simp add: demo_details check_fails_def request_check_def response_json_def
      details_record_def store_record_def record_path_def file_write_def empty_world_def,
      simp add: demo_platform_def)

text \<open>
  Claim C5, as stated, fails: the response to the request for \<open>z\<close> has no status field,
  \<^verbatim>\<open>request_check\<close> raises KeyError on it, and \<^verbatim>\<open>data_from_ids_to_files\<close> does not
  propagate the KeyError: it returns normally, with \<open>z\<close> in the error list.
\<close>

theorem fault_tolerant_KeyError_counterexample:
  "request_check (details_response demo_platform ''KEY'' ''z'') = Inl (KeyError ''status'')
   \<and> fst (data_from_ids_to_files demo_platform [''z''] ''pkls'' ''KEY'' [] [] empty_world)
       = Inr [''z'']"
  by (simp add: data_from_ids_to_files_def demo_details [unfolded details_response_def]
      demo_details requests_request_def request_check_def response_json_def)

text \<open>
  Claim C5, amended. In both fault-tolerant operations the \<^verbatim>\<open>except:\<close> clause names no
  exception: whatever \<^verbatim>\<open>request_check\<close> raises on the response of an item (RequestError,
  or the KeyError of a body without status, or any other), the item is appended to the
  error list and the loop goes on with the next item. What is raised outside the
  \<^verbatim>\<open>try\<close>, as by a response that passes the check and has no \<^verbatim>\<open>result\<close> or
  \<^verbatim>\<open>results\<close>, ends the call with that exception.
\<close>

theorem fault_tolerant_catches_every_exception:
  "(request_check (details_response pf API_key ident) = Inl e \<longrightarrow>
      data_to_files_loop pf folder API_key (ident # ids) error_ids w =
      data_to_files_loop pf folder API_key ids (error_ids @ [ident])
        (w\<lparr> requested := requested w @ [details_url ident API_key] \<rparr>))
   \<and> (request_check (nearby_response pf place_type API_key payload headers point) = Inl e \<longrightarrow>
      ids_to_file_loop pf place_type file_name API_key payload headers ((i, point) # rest)
        error_points w =
      ids_to_file_loop pf place_type file_name API_key payload headers rest
        (error_points @ [point])
        (w\<lparr> requested := requested w @ [point_url pf place_type API_key point] \<rparr>))
   \<and> (request_check (details_response pf API_key ident) = Inr () \<and>
      details_record (details_response pf API_key ident) = None \<longrightarrow>
      (\<exists>e'. fst (data_to_files_loop pf folder API_key (ident # ids) error_ids w) = Inl e'))
   \<and> (request_check (nearby_response pf place_type API_key payload headers point) = Inr () \<and>
      py_getitem body ''results'' = Inl e \<and>
      response_json (nearby_response pf place_type API_key payload headers point) = Inr body \<longrightarrow>
      fst (ids_to_file_loop pf place_type file_name API_key payload headers ((i, point) # rest)
        error_points w) = Inl e)"
proof (intro conjI impI)
  assume "request_check (details_response pf API_key ident) = Inl e"
  then show "data_to_files_loop pf folder API_key (ident # ids) error_ids w =
      data_to_files_loop pf folder API_key ids (error_ids @ [ident])
        (w\<lparr> requested := requested w @ [details_url ident API_key] \<rparr>)"
    by (rule data_to_files_loop_fail_step)
next
  assume "request_check (nearby_response pf place_type API_key payload headers point) = Inl e"
  then have "check_fails (nearby_response pf place_type API_key payload headers point)"
    by (simp add: check_fails_def)
  then show "ids_to_file_loop pf place_type file_name API_key payload headers ((i, point) # rest)
        error_points w =
      ids_to_file_loop pf place_type file_name API_key payload headers rest
        (error_points @ [point])
        (w\<lparr> requested := requested w @ [point_url pf place_type API_key point] \<rparr>)"
    by (rule ids_to_file_loop_fail_step)
next
  assume "request_check (details_response pf API_key ident) = Inr () \<and>
      details_record (details_response pf API_key ident) = None"
  then show "\<exists>e'. fst (data_to_files_loop pf folder API_key (ident # ids) error_ids w) = Inl e'"
    using data_to_files_loop_propagates [of pf API_key ident folder ids error_ids w] by auto
next
  assume "request_check (nearby_response pf place_type API_key payload headers point) = Inr () \<and>
      py_getitem body ''results'' = Inl e \<and>
      response_json (nearby_response pf place_type API_key payload headers point) = Inr body"
  then show "fst (ids_to_file_loop pf place_type file_name API_key payload headers
      ((i, point) # rest) error_points w) = Inl e"
    by (simp add: nearby_response_def point_url_def requests_request_def)
qed

theorem fault_tolerant_catches_every_exception_witness:
  "data_to_files_loop demo_platform ''pkls'' ''KEY'' [''z'', ''x''] [] empty_world =
   (Inr [''z'', ''x''],
    \<lparr> disk = [], requested = [details_url ''z'' ''KEY'', details_url ''x'' ''KEY''] \<rparr>)"
proof -
  have z: "request_check (details_response demo_platform ''KEY'' ''z'') = Inl (KeyError ''status'')"
    by (simp add: demo_details request_check_def response_json_def)
  have x: "request_check (details_response demo_platform ''KEY'' ''x'') =
      Inl (RequestError ''Google API returned the following status: REQUEST_DENIED'')"
    by (simp add: demo_details request_check_def response_json_def)
  note step = fault_tolerant_catches_every_exception [THEN conjunct1, rule_format]
  show ?thesis
    by (simp add: step [OF z] step [OF x] empty_world_def del: data_to_files_loop.simps(2))
qed

section \<open>Properties of the identifier aggregator\<close>

lemma set_add_invariant:
  assumes "distinct (map key s)"
  shows "distinct (map key (set_add key s x))"
    and "set (set_add key s x) \<subseteq> insert x (set s)"
    and "key ` set (set_add key s x) = insert (key x) (key ` set s)"
  using assms by (auto simp add: set_add_def)

lemma foldl_set_add:
  assumes "distinct (map key s)"
  shows "distinct (map key (foldl (set_add key) s xs))
       \<and> set (foldl (set_add key) s xs) \<subseteq> set s \<union> set xs
       \<and> key ` set (foldl (set_add key) s xs) = key ` (set s \<union> set xs)"
  using assms
proof (induction xs arbitrary: s)
  case Nil
  then show ?case by simp
next
  case (Cons x xs)
  note inv = set_add_invariant [OF Cons.prems, of x]
  from Cons.IH [OF inv(1)] inv(2,3) show ?case by auto
qed

lemma list_of_set_props:
  "distinct (map key (list_of_set key xs))"
  "set (list_of_set key xs) \<subseteq> set xs"
  "key ` set (list_of_set key xs) = key ` set xs"
  using foldl_set_add [of key "[]" xs] by (simp_all add: list_of_set_def)

lemma list_of_set_inj:
  assumes "inj_on key (set xs)"
  shows "distinct (list_of_set key xs)" and "set (list_of_set key xs) = set xs"
proof -
  show "distinct (list_of_set key xs)"
    using list_of_set_props(1) [of key xs] by (simp add: distinct_map)
  show "set (list_of_set key xs) = set xs"
  proof
    show "set (list_of_set key xs) \<subseteq> set xs" by (rule list_of_set_props)
    show "set xs \<subseteq> set (list_of_set key xs)"
    proof
      fix x assume x: "x \<in> set xs"
      then have "key x \<in> key ` set (list_of_set key xs)"
        by (simp add: list_of_set_props(3))
      then obtain y where y: "y \<in> set (list_of_set key xs)" "key x = key y" by auto
      with list_of_set_props(2) [of key xs] have "y \<in> set xs" by auto
      with assms x y(2) have "x = y" by (auto dest: inj_onD)
      with y(1) show "x \<in> set (list_of_set key xs)" by simp
    qed
  qed
qed

lemma ids_of_lines_malformed:
  "\<exists>line\<in>set lines. length (py_split line) < 2 \<Longrightarrow> ids_of_lines lines ids = Inl IndexError"
proof (induction lines arbitrary: ids)
  case Nil
  then show ?case by simp
next
  case (Cons line lines)
  show ?case
  proof (cases "py_split line")
    case Nil
    then show ?thesis by simp
  next
    case c1: (Cons t0 ts)
    show ?thesis
    proof (cases ts)
      case Nil
      with c1 show ?thesis by simp
    next
      case c2: (Cons t1 ts')
      with c1 Cons.prems have "\<exists>line\<in>set lines. length (py_split line) < 2" by simp
      with c1 c2 Cons.IH show ?thesis by simp
    qed
  qed
qed

lemma ids_of_lines_wellformed:
  "\<forall>line\<in>set lines. 2 \<le> length (py_split line) \<Longrightarrow>
   ids_of_lines lines ids = Inr (ids @ map (\<lambda>line. py_split line ! 1) lines)"
proof (induction lines arbitrary: ids)
  case Nil
  then show ?case by simp
next
  case (Cons line lines)
  from Cons.prems obtain t0 t1 ts where "py_split line = t0 # t1 # ts"
    by (cases "py_split line" rule: list.exhaust; cases "tl (py_split line)") auto
  with Cons show ?case by simp
qed

lemma unique_ids_loop_malformed:
  assumes "\<forall>f\<in>set files. map_of (disk w) f \<noteq> None"
    and "\<exists>f\<in>set files. \<exists>line\<in>set (file_lines w f). length (py_split line) < 2"
  shows "unique_ids_loop w files ids = Inl IndexError"
  using assms
proof (induction files arbitrary: ids)
  case Nil
  then show ?case by simp
next
  case (Cons f files)
  from Cons.prems(1) obtain content where c: "map_of (disk w) f = Some content" by auto
  show ?case
  proof (cases "\<exists>line\<in>set (readlines content). length (py_split line) < 2")
    case True
    then show ?thesis by (simp add: c ids_of_lines_malformed)
  next
    case False
    then have wf: "\<forall>line\<in>set (readlines content). 2 \<le> length (py_split line)"
      by (auto simp add: not_less)
    from False Cons.prems(2) c
    have "\<exists>f\<in>set files. \<exists>line\<in>set (file_lines w f). length (py_split line) < 2"
      by (auto simp add: file_lines_def)
    with Cons.IH Cons.prems(1) show ?thesis
      by (simp add: c ids_of_lines_wellformed [OF wf])
  qed
qed

lemma unique_ids_loop_wellformed:
  assumes "\<forall>f\<in>set files. map_of (disk w) f \<noteq> None"
    and "\<forall>f\<in>set files. \<forall>line\<in>set (file_lines w f). 2 \<le> length (py_split line)"
  shows "unique_ids_loop w files ids =
     Inr (ids @ concat (map (\<lambda>f. map (\<lambda>line. py_split line ! 1) (file_lines w f)) files))"
  using assms
proof (induction files arbitrary: ids)
  case Nil
  then show ?case by simp
next
  case (Cons f files)
  from Cons.prems(1) obtain content where c: "map_of (disk w) f = Some content" by auto
  with Cons.prems(2) have wf: "\<forall>line\<in>set (readlines content). 2 \<le> length (py_split line)"
    by (simp add: file_lines_def)
  from Cons show ?case
    by (simp add: c ids_of_lines_wellformed [OF wf] file_lines_def)
qed

text \<open>
  When every file exists and every line has two tokens, the call returns the second
  tokens of all the lines, each once.
\<close>

lemma get_unique_ids_from_files_wellformed:
  assumes "\<forall>f\<in>set files. map_of (disk w) f \<noteq> None"
    and "\<forall>f\<in>set files. \<forall>line\<in>set (file_lines w f). 2 \<le> length (py_split line)"
  shows "\<exists>ids. get_unique_ids_from_files w files = Inr ids \<and> distinct ids \<and>
     set ids = (\<Union>f\<in>set files. (\<lambda>line. py_split line ! 1) ` set (file_lines w f))"
proof -
  let ?all = "concat (map (\<lambda>f. map (\<lambda>line. py_split line ! 1) (file_lines w f)) files)"
  have "get_unique_ids_from_files w files = Inr (list_of_set (\<lambda>x. x) ?all)"
    by (simp add: get_unique_ids_from_files_def unique_ids_loop_wellformed [OF assms])
  moreover have "distinct (list_of_set (\<lambda>x. x) ?all)" "set (list_of_set (\<lambda>x. x) ?all) = set ?all"
    by (rule list_of_set_inj, simp)+
  ultimately show ?thesis by auto
qed

text \<open>
  Claim C8, as stated, fails: on a file whose second line has one token the call raises
  IndexError, which names neither the file nor the line; the module has no ParseError.
\<close>

theorem get_unique_ids_from_files_counterexample:
  "get_unique_ids_from_files ids_world [''c.txt''] = Inl IndexError"
  by (simp add: get_unique_ids_from_files_def ids_world_def readlines_def py_split_def
      py_isspace_def)

text \<open>
  Claim C8, amended. When every file of the list exists and some line of one of them has
  fewer than two tokens, \<^verbatim>\<open>get_unique_ids_from_files\<close> fails with IndexError: no line is
  skipped and no list is returned.
\<close>

theorem get_unique_ids_from_files_malformed:
  assumes "\<forall>f\<in>set files. map_of (disk w) f \<noteq> None"
    and "\<exists>f\<in>set files. \<exists>line\<in>set (file_lines w f). length (py_split line) < 2"
  shows "get_unique_ids_from_files w files = Inl IndexError"
  by (simp add: get_unique_ids_from_files_def unique_ids_loop_malformed [OF assms])

theorem get_unique_ids_from_files_malformed_witness:
  "get_unique_ids_from_files ids_world [''a.txt'', ''d.txt'', ''b.txt''] = Inl IndexError"
proof -
  have files: "\<forall>f\<in>set [''a.txt'', ''d.txt'', ''b.txt'']. map_of (disk ids_world) f \<noteq> None"
    by (simp add: ids_world_def)
  have "[CHR 0x0A] \<in> set (file_lines ids_world ''d.txt'')"
    by (simp add: ids_world_def file_lines_def readlines_def)
  moreover have "length (py_split [CHR 0x0A]) < 2"
    by (simp add: py_split_def py_isspace_def)
  ultimately have line: "\<exists>f\<in>set [''a.txt'', ''d.txt'', ''b.txt''].
      \<exists>line\<in>set (file_lines ids_world f). length (py_split line) < 2"
    by (intro bexI [of _ "''d.txt''"] bexI [of _ "[CHR 0x0A]"]) simp_all
  show ?thesis
    by (rule get_unique_ids_from_files_malformed [OF files line])
qed

text \<open>
  Two files, one with the line \<^verbatim>\<open>0 abc\<close> and one with the lines \<^verbatim>\<open>1 abc\<close> and
  \<^verbatim>\<open>2 def\<close>, give the identifiers \<open>abc\<close> and \<open>def\<close>.
\<close>

lemma get_unique_ids_from_files_example:
  "get_unique_ids_from_files ids_world [''a.txt'', ''b.txt''] = Inr [''abc'', ''def'']"
  by (simp add: get_unique_ids_from_files_def ids_world_def readlines_def py_split_def
      py_isspace_def list_of_set_def set_add_def)

section \<open>Properties of the fail-fast collector\<close>

lemma py_getitem_not_RequestError: "py_getitem v k = Inl (RequestError m) \<longleftrightarrow> False"
  by (cases v) (simp_all split: option.splits)

lemma py_iter_not_RequestError: "py_iter v = Inl (RequestError m) \<longleftrightarrow> False"
  by (cases v) simp_all

lemma response_json_not_RequestError: "response_json r = Inl (RequestError m) \<longleftrightarrow> False"
  by (cases r) (simp_all add: response_json_def)

lemma request_check_RequestError_iff:
  "request_check r = Inl (RequestError m) \<longleftrightarrow>
   (\<exists>s. status_of r = Some s \<and> s \<noteq> ''OK'' \<and> s \<noteq> ''ZERO_RESULTS'' \<and>
        m = ''Google API returned the following status: '' @ s)"
  by (auto simp add: request_check_def status_of_def py_getitem_not_RequestError
      response_json_not_RequestError split: sum.splits json.splits)

lemma request_check_ok_status:
  "request_check r = Inr u \<Longrightarrow> status_of r = Some ''OK'' \<or> status_of r = Some ''ZERO_RESULTS''"
  by (auto simp add: request_check_def status_of_def split: sum.splits json.splits if_splits)

lemma append_place_ids_acc:
  "append_place_ids ps acc =
     (case append_place_ids ps [] of Inl e \<Rightarrow> Inl e | Inr vs \<Rightarrow> Inr (acc @ vs))"
proof (induction ps arbitrary: acc)
  case Nil
  show ?case by simp
next
  case (Cons p ps)
  show ?case
  proof (cases "py_getitem p ''place_id''")
    case (Inl e)
    then show ?thesis by simp
  next
    case (Inr v)
    show ?thesis
      using Cons [of "acc @ [v]"] Cons [of "[v]"]
      by (simp add: Inr split: sum.splits)
  qed
qed

lemma append_place_ids_not_RequestError:
  "append_place_ids ps acc = Inl (RequestError m) \<longleftrightarrow> False"
  by (induction ps arbitrary: acc) (auto simp add: py_getitem_not_RequestError split: sum.splits)

lemma nearby_values_not_RequestError: "nearby_values r = Inl (RequestError m) \<longleftrightarrow> False"
  by (auto simp add: nearby_values_def py_getitem_not_RequestError py_iter_not_RequestError
      response_json_not_RequestError append_place_ids_not_RequestError split: sum.splits)

lemma get_ids_loop_step:
  "get_ids_loop pf place_type API_key payload headers (point # grid) list_of_id w =
     (case request_check (nearby_response pf place_type API_key payload headers point) of
        Inl e \<Rightarrow> (Inl e, w\<lparr> requested := requested w @ [point_url pf place_type API_key point] \<rparr>)
      | Inr u \<Rightarrow>
          (case nearby_values (nearby_response pf place_type API_key payload headers point) of
             Inl e \<Rightarrow>
               (Inl e, w\<lparr> requested := requested w @ [point_url pf place_type API_key point] \<rparr>)
           | Inr vs \<Rightarrow>
               get_ids_loop pf place_type API_key payload headers grid (list_of_id @ vs)
                 (w\<lparr> requested := requested w @ [point_url pf place_type API_key point] \<rparr>)))"
proof -
  have acc: "\<And>ps. append_place_ids ps list_of_id =
      (case append_place_ids ps [] of Inl e \<Rightarrow> Inl e | Inr vs \<Rightarrow> Inr (list_of_id @ vs))"
    by (rule append_place_ids_acc)
  show ?thesis
    by (simp add: nearby_response_def point_url_def requests_request_def nearby_values_def acc
        split: sum.splits)
qed

lemma denied_decomp_Cons:
  "(\<exists>pre p post. q # grid = pre @ p # post \<and>
        list_all (\<lambda>q. passes (nearby_response pf place_type API_key payload headers q)) pre \<and>
        status_of (nearby_response pf place_type API_key payload headers p) = Some s \<and>
        s \<noteq> ''OK'' \<and> s \<noteq> ''ZERO_RESULTS'') \<longleftrightarrow>
     (status_of (nearby_response pf place_type API_key payload headers q) = Some s \<and>
        s \<noteq> ''OK'' \<and> s \<noteq> ''ZERO_RESULTS'')
     \<or> (passes (nearby_response pf place_type API_key payload headers q) \<and>
        (\<exists>pre p post. grid = pre @ p # post \<and>
        list_all (\<lambda>q. passes (nearby_response pf place_type API_key payload headers q)) pre \<and>
        status_of (nearby_response pf place_type API_key payload headers p) = Some s \<and>
        s \<noteq> ''OK'' \<and> s \<noteq> ''ZERO_RESULTS''))"
  (is "?L \<longleftrightarrow> ?A \<or> ?B")
proof
  assume ?L
  then obtain pre p post where g: "q # grid = pre @ p # post"
    and pre: "list_all (\<lambda>q. passes (nearby_response pf place_type API_key payload headers q)) pre"
    and st: "status_of (nearby_response pf place_type API_key payload headers p) = Some s"
      "s \<noteq> ''OK''" "s \<noteq> ''ZERO_RESULTS''"
    by blast
  show "?A \<or> ?B"
  proof (cases pre)
    case Nil
    with g st show ?thesis by simp
  next
    case (Cons a pre')
    with g have a: "a = q" and grid: "grid = pre' @ p # post" by simp_all
    from pre Cons a have q: "passes (nearby_response pf place_type API_key payload headers q)"
      and pre': "list_all (\<lambda>q. passes (nearby_response pf place_type API_key payload headers q)) pre'"
      by simp_all
    have "(\<exists>pre p post. grid = pre @ p # post \<and>
        list_all (\<lambda>q. passes (nearby_response pf place_type API_key payload headers q)) pre \<and>
        status_of (nearby_response pf place_type API_key payload headers p) = Some s \<and>
        s \<noteq> ''OK'' \<and> s \<noteq> ''ZERO_RESULTS'')"
      using grid pre' st
      by (intro exI [of _ pre'] exI [of _ p] exI [of _ post]) simp
    with q have ?B by simp
    then show ?thesis ..
  qed
next
  assume "?A \<or> ?B"
  then show ?L
  proof
    assume ?A
    then show ?L
      by (intro exI [of _ "[]"] exI [of _ q] exI [of _ grid]) simp
  next
    assume ?B
    then obtain pre p post where "grid = pre @ p # post"
      and "list_all (\<lambda>q. passes (nearby_response pf place_type API_key payload headers q)) pre"
      and "status_of (nearby_response pf place_type API_key payload headers p) = Some s"
        "s \<noteq> ''OK''" "s \<noteq> ''ZERO_RESULTS''"
      and "passes (nearby_response pf place_type API_key payload headers q)"
      by blast
    then show ?L
      by (intro exI [of _ "q # pre"] exI [of _ p] exI [of _ post]) simp
  qed
qed

lemma reaches_denied_decomp:
  "reaches_denied pf place_type API_key payload headers grid s \<longleftrightarrow>
   (\<exists>pre p post. grid = pre @ p # post \<and>
        list_all (\<lambda>q. passes (nearby_response pf place_type API_key payload headers q)) pre \<and>
        status_of (nearby_response pf place_type API_key payload headers p) = Some s \<and>
        s \<noteq> ''OK'' \<and> s \<noteq> ''ZERO_RESULTS'')"
proof (induction grid)
  case Nil
  show ?case by simp
next
  case (Cons q grid)
  have "reaches_denied pf place_type API_key payload headers (q # grid) s \<longleftrightarrow>
      (status_of (nearby_response pf place_type API_key payload headers q) = Some s \<and>
        s \<noteq> ''OK'' \<and> s \<noteq> ''ZERO_RESULTS'')
      \<or> (passes (nearby_response pf place_type API_key payload headers q) \<and>
        reaches_denied pf place_type API_key payload headers grid s)"
    by simp
  also have "\<dots> \<longleftrightarrow>
      (status_of (nearby_response pf place_type API_key payload headers q) = Some s \<and>
        s \<noteq> ''OK'' \<and> s \<noteq> ''ZERO_RESULTS'')
      \<or> (passes (nearby_response pf place_type API_key payload headers q) \<and>
        (\<exists>pre p post. grid = pre @ p # post \<and>
        list_all (\<lambda>q. passes (nearby_response pf place_type API_key payload headers q)) pre \<and>
        status_of (nearby_response pf place_type API_key payload headers p) = Some s \<and>
        s \<noteq> ''OK'' \<and> s \<noteq> ''ZERO_RESULTS''))"
    by (simp only: Cons.IH)
  also have "\<dots> \<longleftrightarrow> (\<exists>pre p post. q # grid = pre @ p # post \<and>
        list_all (\<lambda>q. passes (nearby_response pf place_type API_key payload headers q)) pre \<and>
        status_of (nearby_response pf place_type API_key payload headers p) = Some s \<and>
        s \<noteq> ''OK'' \<and> s \<noteq> ''ZERO_RESULTS'')"
    by (rule denied_decomp_Cons [symmetric])
  finally show ?case .
qed

lemma get_ids_loop_RequestError_iff:
  "fst (get_ids_loop pf place_type API_key payload headers grid list_of_id w) =
     Inl (RequestError m) \<longleftrightarrow>
   (\<exists>s. reaches_denied pf place_type API_key payload headers grid s \<and>
        m = ''Google API returned the following status: '' @ s)"
proof (induction grid arbitrary: list_of_id w)
  case Nil
  show ?case by simp
next
  case (Cons q grid)
  let ?r = "nearby_response pf place_type API_key payload headers q"
  show ?case
  proof (cases "request_check ?r")
    case (Inl e)
    then have np: "\<not> passes ?r" by (simp add: passes_def)
    have "fst (get_ids_loop pf place_type API_key payload headers (q # grid) list_of_id w) = Inl e"
      by (simp add: get_ids_loop_step Inl del: get_ids_loop.simps)
    then show ?thesis
      using Inl np request_check_RequestError_iff [of ?r m]
      by auto
  next
    case (Inr u)
    then have st: "status_of ?r = Some ''OK'' \<or> status_of ?r = Some ''ZERO_RESULTS''"
      by (rule request_check_ok_status)
    show ?thesis
    proof (cases "nearby_values ?r")
      case e: (Inl e)
      then have np: "\<not> passes ?r" by (simp add: passes_def)
      have "fst (get_ids_loop pf place_type API_key payload headers (q # grid) list_of_id w) = Inl e"
        by (simp add: get_ids_loop_step Inr e del: get_ids_loop.simps)
      moreover have "e \<noteq> RequestError m"
        using e nearby_values_not_RequestError [of ?r m] by auto
      ultimately show ?thesis
        using st np by auto
    next
      case vs: (Inr vs)
      with Inr have p: "passes ?r" by (simp add: passes_def)
      have "get_ids_loop pf place_type API_key payload headers (q # grid) list_of_id w =
          get_ids_loop pf place_type API_key payload headers grid (list_of_id @ vs)
            (w\<lparr> requested := requested w @ [point_url pf place_type API_key q] \<rparr>)"
        by (simp add: get_ids_loop_step Inr vs del: get_ids_loop.simps)
      then show ?thesis
        using st p Cons.IH by auto
    qed
  qed
qed

lemma place_ids_of_append:
  "place_ids_of ps = Some ids \<Longrightarrow> append_place_ids ps acc = Inr (acc @ map JStr ids)"
  by (induction ps arbitrary: ids acc) (auto split: sum.splits json.splits)

lemma nearby_ids_values:
  "nearby_ids r = Some ids \<Longrightarrow> nearby_values r = Inr (map JStr ids)"
  by (auto simp add: nearby_ids_def nearby_values_def place_ids_of_append split: sum.splits)

lemma get_ids_loop_all_ok:
  assumes "\<forall>p\<in>set grid.
      request_check (nearby_response pf place_type API_key payload headers p) = Inr () \<and>
      nearby_ids (nearby_response pf place_type API_key payload headers p) \<noteq> None"
  shows "fst (get_ids_loop pf place_type API_key payload headers grid list_of_id w) =
     Inr (list_of_id @ map JStr (concat (map (\<lambda>p.
            response_ids (nearby_response pf place_type API_key payload headers p)) grid)))"
  using assms
proof (induction grid arbitrary: list_of_id w)
  case Nil
  show ?case by simp
next
  case (Cons q grid)
  let ?r = "nearby_response pf place_type API_key payload headers q"
  from Cons.prems obtain ids where ok: "request_check ?r = Inr ()" and ids: "nearby_ids ?r = Some ids"
    by auto
  have "get_ids_loop pf place_type API_key payload headers (q # grid) list_of_id w =
      get_ids_loop pf place_type API_key payload headers grid (list_of_id @ map JStr ids)
        (w\<lparr> requested := requested w @ [point_url pf place_type API_key q] \<rparr>)"
    by (simp add: get_ids_loop_step ok nearby_ids_values [OF ids] del: get_ids_loop.simps)
  with Cons show ?case
    by (simp add: response_ids_def ids del: get_ids_loop.simps)
qed

lemma py_list_set_not_RequestError: "py_list_set xs = Inl (RequestError m) \<longleftrightarrow> False"
  by (simp add: py_list_set_def)

lemma py_list_set_strings:
  "\<exists>ids. py_list_set (map JStr xs) = Inr ids \<and> distinct ids \<and> set ids = JStr ` set xs"
proof -
  have h: "list_all py_hashable (map JStr xs)"
    by (simp add: list_all_iff)
  have inj: "inj_on py_key (set (map JStr xs))"
    by (auto simp add: inj_on_def)
  show ?thesis
    using list_of_set_inj [OF inj] by (simp add: py_list_set_def h)
qed

lemma fst_get_ids_from_grid:
  "fst (get_ids_from_grid pf grid place_type API_key payload headers w) =
     (case fst (get_ids_loop pf place_type API_key payload headers grid [] w) of
        Inl e \<Rightarrow> Inl e
      | Inr list_of_id \<Rightarrow> py_list_set list_of_id)"
  by (simp add: get_ids_from_grid_def split: prod.splits sum.splits)

text \<open>
  Claim C3. \<^verbatim>\<open>get_ids_from_grid\<close> raises RequestError, with the message that ends in the
  status \<open>s\<close>, exactly when its loop reaches a point whose response has the status \<open>s\<close>
  other than \<^verbatim>\<open>OK\<close> and \<^verbatim>\<open>ZERO_RESULTS\<close>; an exception is all that the call then gives,
  no list. When every point passes the check with a response of the documented form, the
  call returns a list without duplicates whose elements are exactly the \<^verbatim>\<open>place_id\<close>
  values of all the responses.
\<close>

theorem get_ids_from_grid_fail_fast:
  "(fst (get_ids_from_grid pf grid place_type API_key payload headers w) =
      Inl (RequestError m) \<longleftrightarrow>
    (\<exists>s. (\<exists>pre p post. grid = pre @ p # post \<and>
            list_all (\<lambda>q. passes (nearby_response pf place_type API_key payload headers q)) pre \<and>
            status_of (nearby_response pf place_type API_key payload headers p) = Some s \<and>
            s \<noteq> ''OK'' \<and> s \<noteq> ''ZERO_RESULTS'') \<and>
         m = ''Google API returned the following status: '' @ s))
   \<and> ((\<forall>p\<in>set grid.
         request_check (nearby_response pf place_type API_key payload headers p) = Inr () \<and>
         nearby_ids (nearby_response pf place_type API_key payload headers p) \<noteq> None) \<longrightarrow>
      (\<exists>ids. fst (get_ids_from_grid pf grid place_type API_key payload headers w) = Inr ids \<and>
         distinct ids \<and>
         set ids = JStr ` (\<Union>p\<in>set grid.
           set (response_ids (nearby_response pf place_type API_key payload headers p)))))"
proof (intro conjI impI)
  let ?loop = "fst (get_ids_loop pf place_type API_key payload headers grid [] w)"
  have "fst (get_ids_from_grid pf grid place_type API_key payload headers w) =
      Inl (RequestError m) \<longleftrightarrow> ?loop = Inl (RequestError m)"
    by (cases ?loop) (simp_all add: fst_get_ids_from_grid py_list_set_not_RequestError)
  then show "fst (get_ids_from_grid pf grid place_type API_key payload headers w) =
      Inl (RequestError m) \<longleftrightarrow>
    (\<exists>s. (\<exists>pre p post. grid = pre @ p # post \<and>
            list_all (\<lambda>q. passes (nearby_response pf place_type API_key payload headers q)) pre \<and>
            status_of (nearby_response pf place_type API_key payload headers p) = Some s \<and>
            s \<noteq> ''OK'' \<and> s \<noteq> ''ZERO_RESULTS'') \<and>
         m = ''Google API returned the following status: '' @ s)"
    by (simp only: get_ids_loop_RequestError_iff reaches_denied_decomp)
next
  assume ok: "\<forall>p\<in>set grid.
      request_check (nearby_response pf place_type API_key payload headers p) = Inr () \<and>
      nearby_ids (nearby_response pf place_type API_key payload headers p) \<noteq> None"
  let ?all = "concat (map (\<lambda>p.
      response_ids (nearby_response pf place_type API_key payload headers p)) grid)"
  have "fst (get_ids_from_grid pf grid place_type API_key payload headers w) =
      py_list_set (map JStr ?all)"
    using get_ids_loop_all_ok [OF ok, of "[]" w] by (simp add: fst_get_ids_from_grid)
  moreover obtain ids where "py_list_set (map JStr ?all) = Inr ids" "distinct ids"
      "set ids = JStr ` set ?all"
    using py_list_set_strings [of ?all] by blast
  ultimately show "\<exists>ids. fst (get_ids_from_grid pf grid place_type API_key payload headers w) = Inr ids \<and>
         distinct ids \<and>
         set ids = JStr ` (\<Union>p\<in>set grid.
           set (response_ids (nearby_response pf place_type API_key payload headers p)))"
    by auto
qed

theorem get_ids_from_grid_fail_fast_witness:
  "fst (get_ids_from_grid demo_platform [(0, 1), (0, 0), (0, 2)] ''cafe'' ''KEY'' [] [] empty_world)
     = Inl (RequestError ''Google API returned the following status: REQUEST_DENIED'')
   \<and> (\<exists>ids. fst (get_ids_from_grid demo_platform [(0, 1), (0, 2)] ''cafe'' ''KEY'' [] []
                   empty_world) = Inr ids
          \<and> distinct ids \<and> set ids = {JStr ''a'', JStr ''b'', JStr ''c''})"
proof -
  have p01: "passes (nearby_response demo_platform ''cafe'' ''KEY'' [] [] (0, 1))"
    by (simp add: demo_nearby passes_def request_check_def nearby_values_def response_json_def)
  have s00: "status_of (nearby_response demo_platform ''cafe'' ''KEY'' [] [] (0, 0)) =
      Some ''REQUEST_DENIED''"
    by (simp add: demo_nearby status_of_def response_json_def)
  have "\<exists>s. (\<exists>pre p post. [(0, 1), (0, 0), (0, 2)] = pre @ p # post \<and>
            list_all (\<lambda>q. passes (nearby_response demo_platform ''cafe'' ''KEY'' [] [] q)) pre \<and>
            status_of (nearby_response demo_platform ''cafe'' ''KEY'' [] [] p) = Some s \<and>
            s \<noteq> ''OK'' \<and> s \<noteq> ''ZERO_RESULTS'') \<and>
         ''Google API returned the following status: REQUEST_DENIED'' =
           ''Google API returned the following status: '' @ s"
    using p01 s00
    by (intro exI [of _ "''REQUEST_DENIED''"] conjI exI [of _ "[(0, 1)]"] exI [of _ "(0, 0)"]
        exI [of _ "[(0, 2)]"]) simp_all
  then have a: "fst (get_ids_from_grid demo_platform [(0, 1), (0, 0), (0, 2)] ''cafe'' ''KEY'' [] []
      empty_world) = Inl (RequestError ''Google API returned the following status: REQUEST_DENIED'')"
    using get_ids_from_grid_fail_fast [where grid = "[(0, 1), (0, 0), (0, 2)]"
        and pf = demo_platform and place_type = "''cafe''" and API_key = "''KEY''"
        and payload = "[]" and headers = "[]" and w = empty_world, THEN conjunct1]
    by blast
  have ok: "\<forall>p\<in>set [(0, 1), (0, 2)].
      request_check (nearby_response demo_platform ''cafe'' ''KEY'' [] [] p) = Inr () \<and>
      nearby_ids (nearby_response demo_platform ''cafe'' ''KEY'' [] [] p) \<noteq> None"
    by (simp add: demo_nearby request_check_def nearby_ids_def response_json_def)
  have u: "JStr ` (\<Union>p\<in>set [(0, 1), (0, 2)].
      set (response_ids (nearby_response demo_platform ''cafe'' ''KEY'' [] [] p))) =
      {JStr ''a'', JStr ''b'', JStr ''c''}"
    by (auto simp add: demo_nearby response_ids_def nearby_ids_def response_json_def)
  have b: "\<exists>ids. fst (get_ids_from_grid demo_platform [(0, 1), (0, 2)] ''cafe'' ''KEY'' [] []
                   empty_world) = Inr ids
          \<and> distinct ids \<and> set ids = {JStr ''a'', JStr ''b'', JStr ''c''}"
    using get_ids_from_grid_fail_fast [where grid = "[(0, 1), (0, 2)]"
        and pf = demo_platform and place_type = "''cafe''" and API_key = "''KEY''"
        and payload = "[]" and headers = "[]" and w = empty_world, THEN conjunct2, THEN mp, OF ok]
    by (simp only: u)
  from a b show ?thesis by simp
qed

section \<open>Properties of the read-back\<close>

lemma disk_file_write: "map_of (disk (file_write w p s)) = (map_of (disk w))(p \<mapsto> s)"
  by (simp add: file_write_def update_conv')

lemma record_path_inj: "record_path folder i = record_path folder j \<longleftrightarrow> i = j"
  by (simp add: record_path_def)

lemma record_path_name:
  "record_path folder i = folder @ ''/'' @ (i @ ''.pkl'')"
  by (simp add: record_path_def)

lemma store_record_loads:
  assumes "folder_loads pf w folder"
    and "\<forall>d. details_record (details_response pf API_key i) = Some d \<longrightarrow>
           pickle_load pf (pickle_dump pf d) = Inr d"
  shows "folder_loads pf (store_record pf folder API_key w i) folder"
proof (cases "details_record (details_response pf API_key i)")
  case None
  with assms(1) show ?thesis by (simp add: store_record_def)
next
  case (Some d)
  with assms(2) have "pickle_load pf (pickle_dump pf d) = Inr d" by simp
  with assms(1) Some show ?thesis
    by (auto simp add: store_record_def folder_loads_def disk_file_write)
qed

lemma foldl_store_record_loads:
  assumes "folder_loads pf w folder"
    and "\<forall>i\<in>set xs. \<forall>d. details_record (details_response pf API_key i) = Some d \<longrightarrow>
           pickle_load pf (pickle_dump pf d) = Inr d"
  shows "folder_loads pf (foldl (store_record pf folder API_key) w xs) folder"
  using assms
proof (induction xs arbitrary: w)
  case Nil
  then show ?case by simp
next
  case (Cons x xs)
  from Cons.prems have "folder_loads pf (store_record pf folder API_key w x) folder"
    by (intro store_record_loads) simp_all
  with Cons show ?case by simp
qed

lemma store_record_other:
  "i \<noteq> j \<Longrightarrow>
   map_of (disk (store_record pf folder API_key w j)) (record_path folder i) =
   map_of (disk w) (record_path folder i)"
  by (simp add: store_record_def disk_file_write record_path_inj split: option.splits)

lemma store_record_same:
  "details_record (details_response pf API_key i) = Some r \<Longrightarrow>
   map_of (disk (store_record pf folder API_key w i)) (record_path folder i) =
   Some (pickle_dump pf r)"
  by (simp add: store_record_def disk_file_write)

lemma foldl_store_record_present:
  assumes "details_record (details_response pf API_key i) = Some r"
    and "i \<in> set xs \<or> map_of (disk w) (record_path folder i) = Some (pickle_dump pf r)"
  shows "map_of (disk (foldl (store_record pf folder API_key) w xs)) (record_path folder i) =
     Some (pickle_dump pf r)"
  using assms(2)
proof (induction xs arbitrary: w)
  case Nil
  then show ?case by simp
next
  case (Cons x xs)
  have "i \<in> set xs \<or>
      map_of (disk (store_record pf folder API_key w x)) (record_path folder i) =
        Some (pickle_dump pf r)"
  proof (cases "x = i")
    case True
    then show ?thesis by (simp add: store_record_same [OF assms(1)])
  next
    case False
    with Cons.prems show ?thesis by (auto simp add: store_record_other)
  qed
  then show ?case using Cons.IH by simp
qed

lemma os_path_join_name:
  "folder \<noteq> [] \<Longrightarrow> last folder \<noteq> CHR ''/'' \<Longrightarrow> CHR ''/'' \<notin> set f \<Longrightarrow>
   os_path_join folder f = folder @ ''/'' @ f"
  by (cases f) (auto simp add: os_path_join_def)

lemma entry_of_direct:
  assumes "folder \<noteq> []" "last folder \<noteq> CHR ''/''" "CHR ''/'' \<notin> set f" "f \<noteq> []"
  shows "entry_of folder (folder @ ''/'' @ f) = [f]"
proof -
  have "os_path_join folder [] = folder @ ''/''"
    using assms(1,2) by (simp add: os_path_join_def)
  moreover have "takeWhile (\<lambda>c. c \<noteq> CHR ''/'') f = f"
    using assms(3) by (auto simp add: takeWhile_eq_all_conv)
  ultimately show ?thesis
    using assms(4) by (simp add: entry_of_def Let_def)
qed

lemma entry_of_no_slash: "f \<in> set (entry_of folder p) \<Longrightarrow> CHR ''/'' \<notin> set f"
  by (auto simp add: entry_of_def Let_def split: if_splits dest: set_takeWhileD)

lemma listed_files:
  assumes folder: "folder \<noteq> []" "last folder \<noteq> CHR ''/''"
  shows "\<exists>entries. os_listdir w folder = Inr entries
       \<and> (\<forall>f\<in>set entries. CHR ''/'' \<notin> set f)
       \<and> (\<forall>f c. CHR ''/'' \<notin> set f \<and> f \<noteq> [] \<and> map_of (disk w) (folder @ ''/'' @ f) = Some c
             \<longrightarrow> f \<in> set entries)"
proof -
  let ?entries = "remdups (concat (map (\<lambda>pc. entry_of folder (fst pc)) (disk w)))"
  have "os_listdir w folder = Inr ?entries"
    using folder(1) by (simp add: os_listdir_def)
  moreover have "\<forall>f\<in>set ?entries. CHR ''/'' \<notin> set f"
    by (auto dest: entry_of_no_slash)
  moreover have "\<forall>f c. CHR ''/'' \<notin> set f \<and> f \<noteq> [] \<and>
      map_of (disk w) (folder @ ''/'' @ f) = Some c \<longrightarrow> f \<in> set ?entries"
  proof (intro allI impI)
    fix f c
    assume a: "CHR ''/'' \<notin> set f \<and> f \<noteq> [] \<and> map_of (disk w) (folder @ ''/'' @ f) = Some c"
    then have "(folder @ ''/'' @ f, c) \<in> set (disk w)"
      by (auto dest: map_of_SomeD)
    moreover have "f \<in> set (entry_of folder (folder @ ''/'' @ f))"
      using entry_of_direct [OF folder, of f] a by simp
    ultimately show "f \<in> set ?entries"
      by force
  qed
  ultimately show ?thesis by blast
qed

lemma pkl_loop_loads:
  assumes "\<forall>f\<in>set fs. \<exists>c v. map_of (disk w) (os_path_join folder f) = Some c \<and>
             pickle_load pf c = Inr v"
  shows "\<exists>vs. pkl_loop pf w folder fs acc = Inr (acc @ vs)
       \<and> (\<forall>f\<in>set fs. \<forall>c v. map_of (disk w) (os_path_join folder f) = Some c \<and>
             pickle_load pf c = Inr v \<longrightarrow> v \<in> set vs)"
  using assms
proof (induction fs arbitrary: acc)
  case Nil
  then show ?case by simp
next
  case (Cons f fs)
  from Cons.prems obtain c v where c: "map_of (disk w) (os_path_join folder f) = Some c"
    and v: "pickle_load pf c = Inr v"
    by auto
  from Cons.prems have "\<forall>f\<in>set fs. \<exists>c v. map_of (disk w) (os_path_join folder f) = Some c \<and>
      pickle_load pf c = Inr v"
    by simp
  from Cons.IH [OF this, of "acc @ [v]"] obtain vs
    where vs: "pkl_loop pf w folder fs (acc @ [v]) = Inr (acc @ [v] @ vs)"
      and mem: "\<forall>f\<in>set fs. \<forall>c v. map_of (disk w) (os_path_join folder f) = Some c \<and>
             pickle_load pf c = Inr v \<longrightarrow> v \<in> set vs"
    by auto
  have "pkl_loop pf w folder (f # fs) acc = Inr (acc @ (v # vs))"
    using c v vs by (simp add: Let_def)
  moreover have "\<forall>g\<in>set (f # fs). \<forall>c' v'. map_of (disk w) (os_path_join folder g) = Some c' \<and>
      pickle_load pf c' = Inr v' \<longrightarrow> v' \<in> set (v # vs)"
    using c v mem by auto
  ultimately show ?case by blast
qed

lemma folder_loads_requested:
  "folder_loads pf (w\<lparr> requested := r \<rparr>) folder = folder_loads pf w folder"
  by (simp add: folder_loads_def)

text \<open>
  Claim C9. Let \<^verbatim>\<open>data_from_ids_to_files\<close> run on identifiers among which \<open>ident\<close>,
  without slash, gets a response that passes the check and carries the record \<open>r\<close>, and
  let \<^verbatim>\<open>pkl_files_to_list_of_dicts\<close> then read the folder. The read returns a list that
  contains \<open>r\<close> itself. The folder is written without final slash; \<^verbatim>\<open>pickle.load\<close> gives
  back what \<^verbatim>\<open>pickle.dump\<close> wrote for the records persisted, and accepts the files that
  the folder held before.
\<close>

theorem persisted_record_read_back:
  assumes conforms: "\<forall>i\<in>set ids. \<not> check_fails (details_response pf API_key i) \<longrightarrow>
             details_record (details_response pf API_key i) \<noteq> None"
    and ident: "ident \<in> set ids" "request_check (details_response pf API_key ident) = Inr ()"
      "details_record (details_response pf API_key ident) = Some r"
    and folder: "folder \<noteq> []" "last folder \<noteq> CHR ''/''"
    and name: "CHR ''/'' \<notin> set ident"
    and roundtrip: "\<forall>i\<in>set ids. \<forall>d. details_record (details_response pf API_key i) = Some d \<longrightarrow>
             pickle_load pf (pickle_dump pf d) = Inr d"
    and before: "folder_loads pf w folder"
  shows "\<exists>rs. pkl_files_to_list_of_dicts pf
            (snd (data_from_ids_to_files pf ids folder API_key payload headers w)) folder = Inr rs
          \<and> r \<in> set rs"
proof -
  let ?ok = "filter (\<lambda>i. \<not> check_fails (details_response pf API_key i)) ids"
  let ?start = "w\<lparr> requested := requested w @ map (\<lambda>i. details_url i API_key) ids \<rparr>"
  let ?w = "foldl (store_record pf folder API_key) ?start ?ok"
  let ?f = "ident @ ''.pkl''"
  have w': "snd (data_from_ids_to_files pf ids folder API_key payload headers w) = ?w"
    unfolding data_from_ids_to_files_def
    using data_to_files_loop_all [OF conforms, of folder "[]" w] by simp
  have in_ok: "ident \<in> set ?ok"
    using ident(1,2) by (simp add: not_check_fails_iff)
  have written: "map_of (disk ?w) (folder @ ''/'' @ ?f) = Some (pickle_dump pf r)"
    using foldl_store_record_present [OF ident(3), of ?ok ?start folder] in_ok
    by (simp add: record_path_name)
  have loads: "folder_loads pf ?w folder"
    using before roundtrip
    by (intro foldl_store_record_loads) (auto simp add: folder_loads_requested)
  have f: "CHR ''/'' \<notin> set ?f" "?f \<noteq> []"
    using name by simp_all
  obtain entries where entries: "os_listdir ?w folder = Inr entries"
    and noslash: "\<forall>f\<in>set entries. CHR ''/'' \<notin> set f"
    and listed: "\<forall>f c. CHR ''/'' \<notin> set f \<and> f \<noteq> [] \<and>
        map_of (disk ?w) (folder @ ''/'' @ f) = Some c \<longrightarrow> f \<in> set entries"
    using listed_files [OF folder, of ?w] by blast
  let ?files = "filter (\<lambda>f. os_path_isfile ?w (os_path_join folder f)) entries"
  have join: "\<And>f. CHR ''/'' \<notin> set f \<Longrightarrow> os_path_join folder f = folder @ ''/'' @ f"
    using folder by (rule os_path_join_name)
  have "?f \<in> set entries"
    using listed f written by blast
  then have mem: "?f \<in> set ?files"
    using written f(1) by (simp add: os_path_isfile_def join)
  have all: "\<forall>f\<in>set ?files. \<exists>c v. map_of (disk ?w) (os_path_join folder f) = Some c \<and>
      pickle_load pf c = Inr v"
  proof
    fix g assume g: "g \<in> set ?files"
    then have ns: "CHR ''/'' \<notin> set g" using noslash by simp
    from g obtain c where c: "map_of (disk ?w) (folder @ ''/'' @ g) = Some c"
      by (auto simp add: os_path_isfile_def join [OF ns])
    with loads ns obtain v where "pickle_load pf c = Inr v"
      unfolding folder_loads_def by blast
    with c show "\<exists>c v. map_of (disk ?w) (os_path_join folder g) = Some c \<and> pickle_load pf c = Inr v"
      by (simp add: join [OF ns])
  qed
  from pkl_loop_loads [OF all, of "[]"] obtain vs
    where vs: "pkl_loop pf ?w folder ?files [] = Inr vs"
      and got: "\<forall>f\<in>set ?files. \<forall>c v. map_of (disk ?w) (os_path_join folder f) = Some c \<and>
             pickle_load pf c = Inr v \<longrightarrow> v \<in> set vs"
    by auto
  have "pickle_load pf (pickle_dump pf r) = Inr r"
    using roundtrip ident(1,3) by blast
  with got mem written f(1) have "r \<in> set vs"
    by (auto simp add: join)
  moreover have "pkl_files_to_list_of_dicts pf ?w folder = Inr vs"
    by (simp add: pkl_files_to_list_of_dicts_def entries vs)
  ultimately show ?thesis
    unfolding w' by blast
qed

theorem persisted_record_read_back_witness:
  "\<exists>rs. pkl_files_to_list_of_dicts demo_platform
          (snd (data_from_ids_to_files demo_platform [''x'', ''y''] ''pkls'' ''KEY'' [] []
             empty_world)) ''pkls'' = Inr rs
        \<and> JObj [(''name'', JStr ''Cafe Y'')] \<in> set rs"
proof (rule persisted_record_read_back [where ident = "''y''"])
  show "\<forall>i\<in>set [''x'', ''y'']. \<not> check_fails (details_response demo_platform ''KEY'' i) \<longrightarrow>
      details_record (details_response demo_platform ''KEY'' i) \<noteq> None"
    by (simp add: demo_details check_fails_def request_check_def response_json_def
        details_record_def)
  show "''y'' \<in> set [''x'', ''y'']" by simp
  show "request_check (details_response demo_platform ''KEY'' ''y'') = Inr ()"
    by (simp add: demo_details request_check_def response_json_def)
  show "details_record (details_response demo_platform ''KEY'' ''y'') =
      Some (JObj [(''name'', JStr ''Cafe Y'')])"
    by (simp add: demo_details details_record_def response_json_def)
  show "''pkls'' \<noteq> []" "last ''pkls'' \<noteq> CHR ''/''" "CHR ''/'' \<notin> set ''y''"
    by simp_all
  show "\<forall>i\<in>set [''x'', ''y'']. \<forall>d. details_record (details_response demo_platform ''KEY'' i) = Some d \<longrightarrow>
      pickle_load demo_platform (pickle_dump demo_platform d) = Inr d"
    by (simp add: demo_details details_record_def response_json_def, simp add: demo_platform_def)
  show "folder_loads demo_platform empty_world ''pkls''"
    by (simp add: folder_loads_def empty_world_def)
qed

text \<open>
  For the identifiers \<open>x\<close>, whose request is denied, and \<open>y\<close>, the read of the folder
  returns one record, that of \<open>y\<close>.
\<close>

lemma read_back_example:
  "pkl_files_to_list_of_dicts demo_platform
     (snd (data_from_ids_to_files demo_platform [''x'', ''y''] ''pkls'' ''KEY'' [] []
        empty_world)) ''pkls'' = Inr [JObj [(''name'', JStr ''Cafe Y'')]]"
proof -
  have "snd (data_from_ids_to_files demo_platform [''x'', ''y''] ''pkls'' ''KEY'' [] [] empty_world) =
      \<lparr> disk = [(''pkls/y.pkl'', ''Y'')],
        requested = [details_url ''x'' ''KEY'', details_url ''y'' ''KEY''] \<rparr>"
    by (simp add: data_from_ids_to_files_def demo_details [unfolded details_response_def]
        requests_request_def request_check_def response_json_def file_write_def empty_world_def,
        simp add: demo_platform_def)
  then show ?thesis
    by (simp add: pkl_files_to_list_of_dicts_def os_listdir_def entry_of_def os_path_join_def
        os_path_isfile_def Let_def, simp add: demo_platform_def)
qed

end
